theory Spec2Isabelle
  imports Complex_Main
begin

section \<open>Story Point Sleuth: the statistics of \<^verbatim>\<open>src/components/Dashboard.tsx\<close>\<close>

text \<open>
  The dashboard turns Jira issues into three charts (a stacked-bar boxplot, a scatter plot
  with a least-squares trend line, a histogram of logged hours).  The functions below follow
  \<^verbatim>\<open>Dashboard.tsx\<close> one by one and keep its names.

  JavaScript numbers are modelled as real numbers: rounding of IEEE doubles is not
  modelled.  Where the source can leave the finite numbers (a division by zero in the
  regression), the values NaN and the two infinities are modelled explicitly by the type
  \<open>jsnum\<close>.  \<^verbatim>\<open>console.log\<close> calls and chart colours are left out.
\<close>


subsection \<open>Dates\<close>

text \<open>
  A JavaScript \<^verbatim>\<open>Date\<close> holds a time value, the milliseconds since the epoch.  The model
  works in one fixed time zone without daylight-saving changes, so that time values and
  local calendar fields determine each other.  The result of \<^verbatim>\<open>new Date()\<close> is given by its
  local fields, the values that \<^verbatim>\<open>getFullYear()\<close>, \<^verbatim>\<open>getMonth()\<close> (0 to 11),
  \<^verbatim>\<open>getDate()\<close>, \<^verbatim>\<open>getHours()\<close> and so on return.
\<close>

record date_fields =
  getFullYear :: int
  getMonth :: int
  getDate :: int
  getHours :: int
  getMinutes :: int
  getSeconds :: int
  getMilliseconds :: int

text \<open>The day and time arithmetic of ECMAScript (ECMA-262, Date objects).\<close>

definition DayFromYear :: "int \<Rightarrow> int" where
  "DayFromYear y = 365 * (y - 1970) + (y - 1969) div 4 - (y - 1901) div 100 + (y - 1601) div 400"

definition InLeapYear :: "int \<Rightarrow> bool" where
  "InLeapYear y = (y mod 4 = 0 \<and> (y mod 100 \<noteq> 0 \<or> y mod 400 = 0))"

text \<open>The number of the first day of month \<open>m\<close> (0 to 11) within its year.\<close>

definition MonthStart :: "int \<Rightarrow> bool \<Rightarrow> int" where
  "MonthStart m leap =
     (let l = (if leap then 1 else 0)
      in if m = 0 then 0 else if m = 1 then 31 else if m = 2 then 59 + l
         else if m = 3 then 90 + l else if m = 4 then 120 + l else if m = 5 then 151 + l
         else if m = 6 then 181 + l else if m = 7 then 212 + l else if m = 8 then 243 + l
         else if m = 9 then 273 + l else if m = 10 then 304 + l else 334 + l)"

text \<open>
  \<open>MakeDay\<close> accepts any month and day of month and carries the overflow: month 12 is
  January of the next year, month \<open>-1\<close> December of the year before, day 0 the last day of
  the month before.
\<close>

definition MakeDay :: "int \<Rightarrow> int \<Rightarrow> int \<Rightarrow> int" where
  "MakeDay year month dt =
     (let ym = year + month div 12;
          mn = month mod 12
      in DayFromYear ym + MonthStart mn (InLeapYear ym) + dt - 1)"

definition MakeTime :: "int \<Rightarrow> int \<Rightarrow> int \<Rightarrow> int \<Rightarrow> int" where
  "MakeTime hour minute sec ms = hour * 3600000 + minute * 60000 + sec * 1000 + ms"

definition MakeDate :: "int \<Rightarrow> int \<Rightarrow> int" where
  "MakeDate day time = day * 86400000 + time"

definition TimeWithinDay :: "date_fields \<Rightarrow> int" where
  "TimeWithinDay d = MakeTime (getHours d) (getMinutes d) (getSeconds d) (getMilliseconds d)"

text \<open>The time value of a date given by its fields (\<^verbatim>\<open>getTime()\<close>).\<close>

definition getTime :: "date_fields \<Rightarrow> int" where
  "getTime d = MakeDate (MakeDay (getFullYear d) (getMonth d) (getDate d)) (TimeWithinDay d)"

text \<open>
  \<^verbatim>\<open>d.setHours(hour)\<close>, \<^verbatim>\<open>d.setDate(dt)\<close> and \<^verbatim>\<open>d.setMonth(month)\<close> replace one field and
  keep the others; each gives the new time value of \<open>d\<close>.
\<close>

definition setHours :: "date_fields \<Rightarrow> int \<Rightarrow> int" where
  "setHours d hour =
     MakeDate (MakeDay (getFullYear d) (getMonth d) (getDate d))
              (MakeTime hour (getMinutes d) (getSeconds d) (getMilliseconds d))"

definition setDate :: "date_fields \<Rightarrow> int \<Rightarrow> int" where
  "setDate d dt = MakeDate (MakeDay (getFullYear d) (getMonth d) dt) (TimeWithinDay d)"

definition setMonth :: "date_fields \<Rightarrow> int \<Rightarrow> int" where
  "setMonth d month = MakeDate (MakeDay (getFullYear d) month (getDate d)) (TimeWithinDay d)"

subsection \<open>Raw issues\<close>

text \<open>
  A value of a field as the JSON of Jira delivers it: a number, a string, a boolean,
  \<^verbatim>\<open>null\<close> (also for an absent field, which reads as \<^verbatim>\<open>undefined\<close>), or an array or
  object, whose content plays no role here.
\<close>

datatype jsval = JNumber real | JString string | JBoolean bool | JNull | JObject

text \<open>
  The fields of a Jira issue that the dashboard reads.  The five guessed story-point fields
  hold any value.  The time fields hold numbers when present; an absent or \<^verbatim>\<open>null\<close> one is
  \<open>None\<close>.  \<open>fields_updated\<close> is the time value of \<^verbatim>\<open>new Date(issue.fields.updated)\<close>,
  \<open>None\<close> for an invalid date.  \<open>otherFields\<close> lists the remaining entries of
  \<^verbatim>\<open>issue.fields\<close> in the order of \<^verbatim>\<open>Object.keys\<close>.
\<close>

record time_tracking =
  timeSpentSeconds :: "real option"

record jira_issue =
  issue_key :: string
  fields_summary :: string
  fields_updated :: "int option"
  customfield_10016 :: jsval
  customfield_10004 :: jsval
  customfield_10002 :: jsval
  customfield_10003 :: jsval
  customfield_10005 :: jsval
  otherFields :: "(string \<times> jsval) list"
  timespent :: "real option"
  timetracking :: "time_tracking option"
  worklog :: "real list option"

subsection \<open>Time window (\<^verbatim>\<open>filterIssuesByTime\<close>)\<close>

text \<open>
  The function reads the clock twice, \<^verbatim>\<open>const now = new Date()\<close> and
  \<^verbatim>\<open>const cutoffDate = new Date()\<close>; the two readings are the first two arguments here.
  \<open>cutoffTime\<close> is the \<^verbatim>\<open>switch\<close>: the time value of \<^verbatim>\<open>cutoffDate\<close> after the update, or
  \<open>None\<close> in the \<^verbatim>\<open>default\<close> case.
\<close>

definition cutoffTime :: "date_fields \<Rightarrow> date_fields \<Rightarrow> string \<Rightarrow> int option" where
  "cutoffTime now cutoffDate timeFilter =
     (if timeFilter = ''1h'' then Some (setHours cutoffDate (getHours now - 1))
      else if timeFilter = ''1d'' then Some (setDate cutoffDate (getDate now - 1))
      else if timeFilter = ''1w'' then Some (setDate cutoffDate (getDate now - 7))
      else if timeFilter = ''1m'' then Some (setMonth cutoffDate (getMonth now - 1))
      else if timeFilter = ''3m'' then Some (setMonth cutoffDate (getMonth now - 3))
      else None)"

text \<open>
  \<^verbatim>\<open>updatedDate >= cutoffDate\<close> compares time values; an invalid date is \<^verbatim>\<open>NaN\<close> and the
  comparison is false.
\<close>

definition updatedSince :: "int \<Rightarrow> jira_issue \<Rightarrow> bool" where
  "updatedSince cutoff issue =
     (case fields_updated issue of None \<Rightarrow> False | Some updatedDate \<Rightarrow> updatedDate \<ge> cutoff)"

definition filterIssuesByTime ::
  "date_fields \<Rightarrow> date_fields \<Rightarrow> jira_issue list \<Rightarrow> string \<Rightarrow> jira_issue list" where
  "filterIssuesByTime now cutoffDate issues timeFilter =
     (if timeFilter = ''all'' then issues
      else case cutoffTime now cutoffDate timeFilter of
             None \<Rightarrow> issues
           | Some cutoff \<Rightarrow> filter (updatedSince cutoff) issues)"

text \<open>
  The values of \<^verbatim>\<open>timeFilter\<close> that the dashboard offers, from the shortest window to the
  longest.
\<close>

definition timeFilters :: "string list" where
  "timeFilters = [''1h'', ''1d'', ''1w'', ''1m'', ''3m'', ''all'']"


subsection \<open>Processed issues\<close>

text \<open>
  The objects returned by \<^verbatim>\<open>processIssuesForCharts\<close>.  The chart builders are modelled on
  processed issues whose story points are numbers; \<open>extractStoryPoints\<close> below shows where
  the source passes on a value of another type.
\<close>

record processed_issue =
  key :: string
  summary :: string
  storyPoints :: real
  timeSpentHours :: real

subsection \<open>Extraction (inside \<^verbatim>\<open>processIssuesForCharts\<close>)\<close>

text \<open>
  Truthiness of a value: a number other than 0, a non-empty string, \<^verbatim>\<open>true\<close>, an array or an
  object.
\<close>

fun js_truthy_val :: "jsval \<Rightarrow> bool" where
  "js_truthy_val (JNumber v) = (v \<noteq> 0)"
| "js_truthy_val (JString s) = (s \<noteq> [])"
| "js_truthy_val (JBoolean b) = b"
| "js_truthy_val JNull = False"
| "js_truthy_val JObject = True"

text \<open>\<^verbatim>\<open>a || rest\<close>: the value \<open>a\<close> itself when it is truthy, whatever its type.\<close>

definition js_or :: "jsval \<Rightarrow> jsval \<Rightarrow> jsval" where
  "js_or a rest = (if js_truthy_val a then a else rest)"

text \<open>
  The fallback scan for a numeric custom field: the fields whose name starts with
  \<^verbatim>\<open>customfield_\<close> and whose value is a number above 0 and at most 100.  The scan runs
  when \<^verbatim>\<open>storyPoints === 0\<close>; the five guessed fields are falsy then, so none of them is a
  number above 0 and only \<open>otherFields\<close> is scanned.
\<close>

definition numericFields :: "jira_issue \<Rightarrow> (string \<times> real) list" where
  "numericFields issue =
     concat (map (\<lambda>(field, val).
                    case val of
                      JNumber v \<Rightarrow> if v > 0 \<and> v \<le> 100 then [(field, v)] else []
                    | _ \<Rightarrow> [])
                 (filter (\<lambda>(field, val). take 12 field = ''customfield_'') (otherFields issue)))"

text \<open>
  The story points of an issue: the first truthy value among the five guessed fields, of
  whatever type (there is no \<^verbatim>\<open>typeof\<close> test here), else the number 0; when this is the
  number 0 (\<^verbatim>\<open>storyPoints === 0\<close>), the first field of the scan, if there is one.
\<close>

definition extractStoryPoints :: "jira_issue \<Rightarrow> jsval" where
  "extractStoryPoints issue =
     (let storyPoints =
            js_or (customfield_10016 issue)
              (js_or (customfield_10004 issue)
                (js_or (customfield_10002 issue)
                  (js_or (customfield_10003 issue)
                    (js_or (customfield_10005 issue) (JNumber 0)))))
      in if storyPoints = JNumber 0
         then (case numericFields issue of [] \<Rightarrow> storyPoints | (field, v) # _ \<Rightarrow> JNumber v)
         else storyPoints)"

text \<open>
  Truthiness of a time field, which holds a number or is absent: the number when it is
  not 0.
\<close>

definition truthyValue :: "real option \<Rightarrow> real option" where
  "truthyValue a = (case a of None \<Rightarrow> None | Some v \<Rightarrow> if v \<noteq> 0 then Some v else None)"

text \<open>\<^verbatim>\<open>issue.fields.timetracking?.timeSpentSeconds\<close>\<close>

definition timetrackingSeconds :: "jira_issue \<Rightarrow> real option" where
  "timetrackingSeconds issue =
     (case timetracking issue of None \<Rightarrow> None | Some tt \<Rightarrow> timeSpentSeconds tt)"

text \<open>
  The three sources of logged time, tried in this order.  The first two are taken when
  their value is truthy, the third when the list of worklogs is not empty; the seconds of
  the worklogs are added up by \<^verbatim>\<open>reduce\<close> from 0.
\<close>

definition extractTimeSpentHours :: "jira_issue \<Rightarrow> real" where
  "extractTimeSpentHours issue =
     (case truthyValue (timespent issue) of
        Some seconds \<Rightarrow> seconds / 3600
      | None \<Rightarrow>
          (case truthyValue (timetrackingSeconds issue) of
             Some seconds \<Rightarrow> seconds / 3600
           | None \<Rightarrow>
               (case worklog issue of
                  None \<Rightarrow> 0
                | Some worklogs \<Rightarrow>
                    if length worklogs > 0 then foldl (+) 0 worklogs / 3600 else 0)))"


subsection \<open>Boxplot statistics (\<^verbatim>\<open>createBoxplotData\<close>)\<close>

text \<open>
  \<^verbatim>\<open>storyPointGroups\<close> is an object keyed by story points; here an association list.
  A group is created on the first push, so no group is ever empty.
\<close>

type_synonym story_point_groups = "(real \<times> real list) list"

fun pushGroup :: "real \<Rightarrow> real \<Rightarrow> story_point_groups \<Rightarrow> story_point_groups" where
  "pushGroup sp h [] = [(sp, [h])]"
| "pushGroup sp h ((k, hs) # rest) =
     (if k = sp then (k, hs @ [h]) # rest else (k, hs) # pushGroup sp h rest)"

definition groupIssue :: "processed_issue \<Rightarrow> story_point_groups \<Rightarrow> story_point_groups" where
  "groupIssue issue groups =
     (if storyPoints issue > 0 \<and> timeSpentHours issue > 0
      then pushGroup (storyPoints issue) (timeSpentHours issue) groups
      else groups)"

definition storyPointGroups :: "processed_issue list \<Rightarrow> story_point_groups" where
  "storyPointGroups processedIssues = fold groupIssue processedIssues []"

text \<open>
  \<^verbatim>\<open>hours[i]\<close>: reading an array out of range gives \<^verbatim>\<open>undefined\<close> in JavaScript,
  here \<open>None\<close>.
\<close>

definition js_index :: "'a list \<Rightarrow> nat \<Rightarrow> 'a option" where
  "js_index xs i = (if i < length xs then Some (xs ! i) else None)"

definition q1Index :: "nat \<Rightarrow> nat" where
  "q1Index n = nat \<lfloor>real n * 0.25\<rfloor>"

definition medianIndex :: "nat \<Rightarrow> nat" where
  "medianIndex n = nat \<lfloor>real n * 0.5\<rfloor>"

definition q3Index :: "nat \<Rightarrow> nat" where
  "q3Index n = nat \<lfloor>real n * 0.75\<rfloor>"

record boxplot_stat =
  q1 :: real
  median :: real
  q3 :: real
  lowerWhisker :: real
  upperWhisker :: real
  outliers :: "real list"
  count :: nat
  label :: real

text \<open>
  One element of \<^verbatim>\<open>boxplotStats\<close>.  The label \<^verbatim>\<open>`${sp} SP`\<close> is kept as the number
  \<open>sp\<close>.  The result is \<open>None\<close> when one of the five array reads is out of range
  (the source would then compute with \<^verbatim>\<open>undefined\<close>).
\<close>

definition boxplotStat :: "real \<Rightarrow> real list \<Rightarrow> boxplot_stat option" where
  "boxplotStat sp groupHours =
     (let hours = sort groupHours;
          n = length hours
      in case (js_index hours (q1Index n), js_index hours (medianIndex n),
               js_index hours (q3Index n), js_index hours 0, js_index hours (n - 1)) of
           (Some q1v, Some medianv, Some q3v, Some lo, Some hi) \<Rightarrow>
             (let iqr = q3v - q1v;
                  lowerWhiskerv = max lo (q1v - 1.5 * iqr);
                  upperWhiskerv = min hi (q3v + 1.5 * iqr)
              in Some \<lparr>q1 = q1v, median = medianv, q3 = q3v,
                       lowerWhisker = lowerWhiskerv, upperWhisker = upperWhiskerv,
                       outliers = filter (\<lambda>h. h < lowerWhiskerv \<or> h > upperWhiskerv) hours,
                       count = n, label = sp\<rparr>)
         | _ \<Rightarrow> None)"

record boxplot_data =
  labels :: "real list"
  datasets :: "real list list"
  boxplotStats :: "boxplot_stat list"

text \<open>
  \<^verbatim>\<open>createBoxplotData\<close>, from the processed issues on.  \<^verbatim>\<open>Object.keys\<close> gives each key
  once and the keys are then sorted by their numeric value.  The four data arrays are the
  stacked bar segments, in the order of the source.  The result is \<open>None\<close> when a
  statistic of some group is undefined.
\<close>

definition createBoxplotData :: "processed_issue list \<Rightarrow> boxplot_data option" where
  "createBoxplotData processedIssues =
     (let groups = storyPointGroups processedIssues;
          sortedLabels = sort (map fst groups)
      in case those (map (\<lambda>sp. Option.bind (map_of groups sp) (boxplotStat sp)) sortedLabels) of
           None \<Rightarrow> None
         | Some stats \<Rightarrow>
             Some \<lparr>labels = map label stats,
                    datasets = [map (\<lambda>stat. q1 stat - lowerWhisker stat) stats,
                                map (\<lambda>stat. median stat - q1 stat) stats,
                                map (\<lambda>stat. q3 stat - median stat) stats,
                                map (\<lambda>stat. upperWhisker stat - q3 stat) stats],
                    boxplotStats = stats\<rparr>)"

subsection \<open>JavaScript numbers that may leave the finite range\<close>

text \<open>
  A finite number, the two infinities or \<^verbatim>\<open>NaN\<close>.  The operations follow IEEE 754 on
  these four kinds of value; rounding and the sign of zero are not modelled.
\<close>

datatype jsnum = Num real | PosInf | NegInf | NaN

fun js_neg :: "jsnum \<Rightarrow> jsnum" where
  "js_neg (Num a) = Num (- a)"
| "js_neg PosInf = NegInf"
| "js_neg NegInf = PosInf"
| "js_neg NaN = NaN"

fun js_add :: "jsnum \<Rightarrow> jsnum \<Rightarrow> jsnum" where
  "js_add NaN b = NaN"
| "js_add a NaN = NaN"
| "js_add (Num a) (Num b) = Num (a + b)"
| "js_add PosInf NegInf = NaN"
| "js_add NegInf PosInf = NaN"
| "js_add PosInf b = PosInf"
| "js_add a PosInf = PosInf"
| "js_add NegInf b = NegInf"
| "js_add a NegInf = NegInf"

definition js_sub :: "jsnum \<Rightarrow> jsnum \<Rightarrow> jsnum" where
  "js_sub a b = js_add a (js_neg b)"

text \<open>An infinity times a finite number: \<^verbatim>\<open>NaN\<close> for 0, else the infinity with the sign of the product.\<close>

definition js_scale_inf :: "jsnum \<Rightarrow> real \<Rightarrow> jsnum" where
  "js_scale_inf a b = (if b = 0 then NaN else if b > 0 then a else js_neg a)"

fun js_mul :: "jsnum \<Rightarrow> jsnum \<Rightarrow> jsnum" where
  "js_mul NaN b = NaN"
| "js_mul a NaN = NaN"
| "js_mul (Num a) (Num b) = Num (a * b)"
| "js_mul (Num a) b = js_scale_inf b a"
| "js_mul a (Num b) = js_scale_inf a b"
| "js_mul PosInf b = b"
| "js_mul NegInf b = js_neg b"

text \<open>
  Division: a finite number divided by 0 is \<^verbatim>\<open>NaN\<close> when it is 0 itself and an infinity
  otherwise.
\<close>

fun js_div :: "jsnum \<Rightarrow> jsnum \<Rightarrow> jsnum" where
  "js_div NaN b = NaN"
| "js_div a NaN = NaN"
| "js_div (Num a) (Num b) =
     (if b \<noteq> 0 then Num (a / b) else if a = 0 then NaN else if a > 0 then PosInf else NegInf)"
| "js_div (Num a) b = Num 0"
| "js_div a (Num b) = (if b \<ge> 0 then a else js_neg a)"
| "js_div a b = NaN"

text \<open>\<^verbatim>\<open>Math.max\<close> and \<^verbatim>\<open>Math.min\<close> of two numbers: \<^verbatim>\<open>NaN\<close> if one of them is.\<close>

fun js_max :: "jsnum \<Rightarrow> jsnum \<Rightarrow> jsnum" where
  "js_max NaN b = NaN"
| "js_max a NaN = NaN"
| "js_max (Num a) (Num b) = Num (max a b)"
| "js_max PosInf b = PosInf"
| "js_max a PosInf = PosInf"
| "js_max NegInf b = b"
| "js_max a NegInf = a"

fun js_min :: "jsnum \<Rightarrow> jsnum \<Rightarrow> jsnum" where
  "js_min NaN b = NaN"
| "js_min a NaN = NaN"
| "js_min (Num a) (Num b) = Num (min a b)"
| "js_min NegInf b = NegInf"
| "js_min a NegInf = NegInf"
| "js_min PosInf b = b"
| "js_min a PosInf = a"

text \<open>Truthiness of a number: false for 0 and \<^verbatim>\<open>NaN\<close>.\<close>

fun js_truthy :: "jsnum \<Rightarrow> bool" where
  "js_truthy (Num a) = (a \<noteq> 0)"
| "js_truthy NaN = False"
| "js_truthy a = True"

text \<open>
  \<^verbatim>\<open>Math.min(...xs)\<close> and \<^verbatim>\<open>Math.max(...xs)\<close>; for no argument they are \<^verbatim>\<open>Infinity\<close> and
  \<^verbatim>\<open>-Infinity\<close>.
\<close>

definition Math_min :: "real list \<Rightarrow> jsnum" where
  "Math_min xs = foldr (\<lambda>x m. js_min (Num x) m) xs PosInf"

definition Math_max :: "real list \<Rightarrow> jsnum" where
  "Math_max xs = foldr (\<lambda>x m. js_max (Num x) m) xs NegInf"

subsection \<open>Scatter plot and trend line (\<^verbatim>\<open>createScatterplotData\<close>)\<close>

text \<open>
  A point is a pair of its \<^verbatim>\<open>x\<close> and \<^verbatim>\<open>y\<close>.  The input points are finite; the four sums
  are taken over the reals.
\<close>

record trend_line =
  points :: "(jsnum \<times> jsnum) list"
  slope :: jsnum
  intercept :: jsnum

definition calculateTrendLine :: "(real \<times> real) list \<Rightarrow> trend_line" where
  "calculateTrendLine data =
     (if length data < 2 then \<lparr>points = [], slope = Num 0, intercept = Num 0\<rparr>
      else
        let n = real (length data);
            sumX = foldl (\<lambda>sum point. sum + fst point) 0 data;
            sumY = foldl (\<lambda>sum point. sum + snd point) 0 data;
            sumXY = foldl (\<lambda>sum point. sum + fst point * snd point) 0 data;
            sumXX = foldl (\<lambda>sum point. sum + fst point * fst point) 0 data;
            slopev = js_div (Num (n * sumXY - sumX * sumY)) (Num (n * sumXX - sumX * sumX));
            interceptv = js_div (js_sub (Num sumY) (js_mul slopev (Num sumX))) (Num n);
            xs = map fst data;
            minX = Math_min xs;
            maxX = Math_max xs;
            range = (if js_truthy (js_sub maxX minX) then js_sub maxX minX else Num 1);
            pad = js_mul range (Num 0.1);
            extMin = js_max (Num 0) (js_sub minX pad);
            extMax = js_add maxX pad
        in \<lparr>points =
              [(extMin, js_max (Num 0) (js_add (js_mul slopev extMin) interceptv)),
               (extMax, js_max (Num 0) (js_add (js_mul slopev extMax) interceptv))],
            slope = slopev, intercept = interceptv\<rparr>)"

text \<open>
  \<^verbatim>\<open>createScatterplotData\<close>, from the processed issues on.  The labels of the points are
  left out.  The trend line data set is pushed when it has a point, \<open>None\<close> otherwise.
\<close>

record scatterplot_data =
  scatterData :: "(real \<times> real) list"
  trendLineData :: "(jsnum \<times> jsnum) list option"
  trend :: "jsnum \<times> jsnum"

definition createScatterplotData :: "processed_issue list \<Rightarrow> scatterplot_data" where
  "createScatterplotData processedIssues =
     (let scatter = map (\<lambda>issue. (storyPoints issue, timeSpentHours issue))
                      (filter (\<lambda>issue. storyPoints issue > 0 \<and> timeSpentHours issue > 0)
                         processedIssues);
          trendCalc = calculateTrendLine scatter
      in \<lparr>scatterData = scatter,
          trendLineData = (if length (points trendCalc) > 0 then Some (points trendCalc) else None),
          trend = (slope trendCalc, intercept trendCalc)\<rparr>)"


subsection \<open>Histogram (\<^verbatim>\<open>createHistogramData\<close>)\<close>

text \<open>
  The five buckets of logged hours.  The upper bound of the last one is
  \<^verbatim>\<open>Infinity\<close>, here \<open>None\<close>: every finite number is below it.
\<close>

record bucket =
  bucket_label :: string
  bucket_min :: real
  bucket_max :: "real option"

definition buckets :: "bucket list" where
  "buckets =
     [\<lparr>bucket_label = ''0-5h'', bucket_min = 0, bucket_max = Some 5\<rparr>,
      \<lparr>bucket_label = ''5-10h'', bucket_min = 5, bucket_max = Some 10\<rparr>,
      \<lparr>bucket_label = ''10-20h'', bucket_min = 10, bucket_max = Some 20\<rparr>,
      \<lparr>bucket_label = ''20-40h'', bucket_min = 20, bucket_max = Some 40\<rparr>,
      \<lparr>bucket_label = ''40+h'', bucket_min = 40, bucket_max = None\<rparr>]"

text \<open>\<^verbatim>\<open>issue.timeSpentHours >= bucket.min && issue.timeSpentHours < bucket.max\<close>\<close>

definition inBucket :: "real \<Rightarrow> bucket \<Rightarrow> bool" where
  "inBucket h b =
     (h \<ge> bucket_min b \<and> (case bucket_max b of None \<Rightarrow> True | Some m \<Rightarrow> h < m))"

definition bucketCounts :: "processed_issue list \<Rightarrow> nat list" where
  "bucketCounts someIssues =
     map (\<lambda>b. length (filter (\<lambda>issue. inBucket (timeSpentHours issue) b) someIssues)) buckets"

text \<open>
  \<^verbatim>\<open>[...new Set(xs)]\<close>: the distinct elements of \<open>xs\<close>, each at its first occurrence.
\<close>

definition newSet :: "'a list \<Rightarrow> 'a list" where
  "newSet xs = fold (\<lambda>x acc. if x \<in> set acc then acc else acc @ [x]) xs []"

text \<open>
  The label of a series is \<^verbatim>\<open>`${storyPoint} SP`\<close> or \<^verbatim>\<open>"No Story Points"\<close>; the colours
  of a series are left out.
\<close>

datatype series_label = SP real | NoStoryPoints

record histogram_dataset =
  dataset_label :: series_label
  dataset_data :: "nat list"

record histogram_data =
  histogram_labels :: "string list"
  histogram_datasets :: "histogram_dataset list"

definition createHistogramData :: "processed_issue list \<Rightarrow> histogram_data" where
  "createHistogramData processedIssues =
     (let issuesWithBothFields =
            filter (\<lambda>issue. timeSpentHours issue > 0 \<and> storyPoints issue > 0) processedIssues;
          uniqueStoryPoints = sort (newSet (map storyPoints issuesWithBothFields));
          datasets =
            map (\<lambda>storyPoint.
                   \<lparr>dataset_label = SP storyPoint,
                    dataset_data = bucketCounts
                      (filter (\<lambda>issue. storyPoints issue = storyPoint) issuesWithBothFields)\<rparr>)
                uniqueStoryPoints;
          issuesWithoutSP =
            filter (\<lambda>issue. timeSpentHours issue > 0 \<and> storyPoints issue = 0) processedIssues;
          datasetsPushed =
            (if length issuesWithoutSP > 0
             then datasets @ [\<lparr>dataset_label = NoStoryPoints,
                                dataset_data = bucketCounts issuesWithoutSP\<rparr>]
             else datasets)
      in \<lparr>histogram_labels = map bucket_label buckets,
          histogram_datasets =
            filter (\<lambda>dataset. \<exists>count \<in> set (dataset_data dataset). count > 0) datasetsPushed\<rparr>)"

subsection \<open>Effort extraction in the words of the specification\<close>

text \<open>
  The specification of the effort extraction, for comparison with
  \<open>extractTimeSpentHours\<close>: the three sources in their order, an absent one counting as 0
  seconds; the first positive value wins and is divided by 3600; without a positive value
  the hours are 0.
\<close>

definition secondsOrZero :: "real option \<Rightarrow> real" where
  "secondsOrZero a = (case a of None \<Rightarrow> 0 | Some s \<Rightarrow> s)"

definition worklogSeconds :: "jira_issue \<Rightarrow> real" where
  "worklogSeconds issue = (case worklog issue of None \<Rightarrow> 0 | Some worklogs \<Rightarrow> sum_list worklogs)"

definition specTimeSpentHours :: "jira_issue \<Rightarrow> real" where
  "specTimeSpentHours issue =
     (case find (\<lambda>seconds. seconds > 0)
             [secondsOrZero (timespent issue),
              secondsOrZero (timetrackingSeconds issue),
              worklogSeconds issue] of
        None \<Rightarrow> 0
      | Some seconds \<Rightarrow> seconds / 3600)"

text \<open>No duration of the issue is negative.\<close>

definition nonNegativeDurations :: "jira_issue \<Rightarrow> bool" where
  "nonNegativeDurations issue =
     (0 \<le> secondsOrZero (timespent issue)
      \<and> 0 \<le> secondsOrZero (timetrackingSeconds issue)
      \<and> (case worklog issue of None \<Rightarrow> True | Some worklogs \<Rightarrow> list_all (\<lambda>s. 0 \<le> s) worklogs))"

subsection \<open>Performance-deviation score\<close>

text \<open>
  Modelled from the spec: the four classes of the performance-deviation score of section
  4.3 (e) of the specification.  No function of the sources computes this score, so it is
  missing as a whole and the definitions of this subsection follow the specification's
  words.
\<close>

datatype classification = OnTarget | ModerateDeviation | HighDeviation | UndefinedDeviation

text \<open>
  Modelled from the spec: \<open>totalHoursAcrossAllGroups\<close>, the hours of all records of all
  groups.
\<close>

definition totalHoursAcrossAllGroups :: "story_point_groups \<Rightarrow> real" where
  "totalHoursAcrossAllGroups groups = (\<Sum>(estimateValue, hours)\<leftarrow>groups. sum_list hours)"

text \<open>
  Modelled from the spec: \<open>totalEstimatePointsAcrossAllGroups\<close>, the estimate of every
  record of every group.
\<close>

definition totalEstimatePointsAcrossAllGroups :: "story_point_groups \<Rightarrow> real" where
  "totalEstimatePointsAcrossAllGroups groups =
     (\<Sum>(estimateValue, hours)\<leftarrow>groups. estimateValue * real (length hours))"

text \<open>
  Modelled from the spec: \<open>expectedHoursPerPoint\<close>, the global ratio of the two totals;
  \<open>None\<close> when there is no estimate point to divide by.
\<close>

definition expectedHoursPerPoint :: "story_point_groups \<Rightarrow> real option" where
  "expectedHoursPerPoint groups =
     (if totalEstimatePointsAcrossAllGroups groups = 0 then None
      else Some (totalHoursAcrossAllGroups groups / totalEstimatePointsAcrossAllGroups groups))"

text \<open>Modelled from the spec: the mean of the hours of a group.\<close>

definition groupMean :: "real list \<Rightarrow> real" where
  "groupMean hours = sum_list hours / real (length hours)"

text \<open>
  Modelled from the spec: \<open>percentDiff\<close>, the score of a group; \<open>None\<close> when the expected
  hours are zero or not defined.
\<close>

definition percentDiff :: "story_point_groups \<Rightarrow> real \<Rightarrow> real list \<Rightarrow> real option" where
  "percentDiff groups estimateValue hours =
     (case expectedHoursPerPoint groups of
        None \<Rightarrow> None
      | Some perPoint \<Rightarrow>
          if estimateValue * perPoint = 0 then None
          else Some (\<bar>groupMean hours - estimateValue * perPoint\<bar> / (estimateValue * perPoint)))"

text \<open>Modelled from the spec: the classification of a score by the thresholds 0.15 and 0.30.\<close>

definition classify :: "real option \<Rightarrow> classification" where
  "classify score =
     (case score of
        None \<Rightarrow> UndefinedDeviation
      | Some p \<Rightarrow> if p < 0.15 then OnTarget
                  else if p < 0.30 then ModerateDeviation
                  else HighDeviation)"

text \<open>Modelled from the spec: the classification of a group.\<close>

definition groupClassification :: "story_point_groups \<Rightarrow> real \<Rightarrow> real list \<Rightarrow> classification" where
  "groupClassification groups estimateValue hours = classify (percentDiff groups estimateValue hours)"


subsection \<open>Inputs for the examples\<close>

text \<open>
  An issue with a key, the time value of its update, a number in \<^verbatim>\<open>customfield_10016\<close>
  (or none) and a value of \<^verbatim>\<open>timespent\<close>; every other field is absent.  A clock reading on
  the hour.
\<close>

definition exampleIssue :: "string \<Rightarrow> int option \<Rightarrow> real option \<Rightarrow> real option \<Rightarrow> jira_issue" where
  "exampleIssue k updated sp seconds =
     \<lparr>issue_key = k, fields_summary = ''example'', fields_updated = updated,
      customfield_10016 = (case sp of None \<Rightarrow> JNull | Some v \<Rightarrow> JNumber v),
      customfield_10004 = JNull, customfield_10002 = JNull,
      customfield_10003 = JNull, customfield_10005 = JNull, otherFields = [],
      timespent = seconds, timetracking = None, worklog = None\<rparr>"

definition exampleClock :: "int \<Rightarrow> int \<Rightarrow> int \<Rightarrow> int \<Rightarrow> date_fields" where
  "exampleClock y m d h =
     \<lparr>getFullYear = y, getMonth = m, getDate = d, getHours = h,
      getMinutes = 0, getSeconds = 0, getMilliseconds = 0\<rparr>"


section \<open>Properties\<close>

subsection \<open>Quartile indices\<close>

text \<open>
  \<^verbatim>\<open>Math.floor(n * 0.25)\<close> and its two siblings are integer divisions: the nearest-rank
  indices \<open>n div 4\<close>, \<open>n div 2\<close> and \<open>3 * n div 4\<close>.
\<close>

lemma q1Index_div: "q1Index n = n div 4"
proof -
  have "real n * 0.25 = real n / real 4" by simp
  then show ?thesis
    unfolding q1Index_def by (simp only: floor_divide_of_nat_eq nat_int)
qed

lemma medianIndex_div: "medianIndex n = n div 2"
proof -
  have "real n * 0.5 = real n / real 2" by simp
  then show ?thesis
    unfolding medianIndex_def by (simp only: floor_divide_of_nat_eq nat_int)
qed

lemma q3Index_div: "q3Index n = (3 * n) div 4"
proof -
  have "real n * 0.75 = real (3 * n) / real 4" by simp
  then show ?thesis
    unfolding q3Index_def by (simp only: floor_divide_of_nat_eq nat_int)
qed

lemma quartile_index_bounds:
  assumes "0 < n"
  shows "n div 4 < n" "n div 2 < n" "3 * n div 4 < n" "n - 1 < (n::nat)"
  using assms by arith+

subsection \<open>The sorted hours of a group\<close>

lemma sort_nth_mono:
  "i \<le> j \<Longrightarrow> j < length hs \<Longrightarrow> sort hs ! i \<le> sort (hs::real list) ! j"
  using sorted_nth_mono [of "sort hs" i j] by simp

lemma sort_nth_mem: "i < length hs \<Longrightarrow> sort hs ! i \<in> set (hs::real list)"
  using nth_mem [of i "sort hs"] by simp

lemma sort_nth_0: "hs \<noteq> [] \<Longrightarrow> sort hs ! 0 = Min (set (hs::real list))"
proof -
  assume ne: "hs \<noteq> []"
  have mem: "sort hs ! 0 \<in> set hs" using ne by (intro sort_nth_mem) simp
  have "\<forall>y \<in> set hs. sort hs ! 0 \<le> y"
  proof
    fix y assume "y \<in> set hs"
    then have "y \<in> set (sort hs)" by simp
    then obtain i where "i < length (sort hs)" "sort hs ! i = y"
      unfolding in_set_conv_nth by blast
    then show "sort hs ! 0 \<le> y"
      using sort_nth_mono [of 0 i hs] by auto
  qed
  with mem show ?thesis by (intro Min_eqI [symmetric]) auto
qed

lemma sort_nth_last: "hs \<noteq> [] \<Longrightarrow> sort hs ! (length hs - 1) = Max (set (hs::real list))"
proof -
  assume ne: "hs \<noteq> []"
  have mem: "sort hs ! (length hs - 1) \<in> set hs" using ne by (intro sort_nth_mem) simp
  have "\<forall>y \<in> set hs. y \<le> sort hs ! (length hs - 1)"
  proof
    fix y assume "y \<in> set hs"
    then have "y \<in> set (sort hs)" by simp
    then obtain i where "i < length (sort hs)" "sort hs ! i = y"
      unfolding in_set_conv_nth by blast
    then show "y \<le> sort hs ! (length hs - 1)"
      using sort_nth_mono [of i "length hs - 1" hs] by auto
  qed
  with mem show ?thesis by (intro Max_eqI [symmetric]) auto
qed

subsection \<open>The statistics of a non-empty group\<close>

lemma js_index_quartiles:
  assumes "hs \<noteq> []"
  shows "js_index (sort hs) (q1Index (length (sort hs))) = Some (sort hs ! (length hs div 4))"
    and "js_index (sort hs) (medianIndex (length (sort hs))) = Some (sort hs ! (length hs div 2))"
    and "js_index (sort hs) (q3Index (length (sort hs))) = Some (sort hs ! (3 * length hs div 4))"
    and "js_index (sort hs) 0 = Some (sort hs ! 0)"
    and "js_index (sort hs) (length (sort hs) - 1) = Some (sort hs ! (length hs - 1))"
proof -
  from assms have n: "0 < length hs" by simp
  note b = quartile_index_bounds [OF n]
  show "js_index (sort hs) (q1Index (length (sort hs))) = Some (sort hs ! (length hs div 4))"
    using b(1) by (simp add: js_index_def q1Index_div)
  show "js_index (sort hs) (medianIndex (length (sort hs))) = Some (sort hs ! (length hs div 2))"
    using b(2) by (simp add: js_index_def medianIndex_div)
  show "js_index (sort hs) (q3Index (length (sort hs))) = Some (sort hs ! (3 * length hs div 4))"
    using b(3) by (simp add: js_index_def q3Index_div)
  show "js_index (sort hs) 0 = Some (sort hs ! 0)"
    using n by (simp add: js_index_def)
  show "js_index (sort hs) (length (sort hs) - 1) = Some (sort hs ! (length hs - 1))"
    using n by (simp add: js_index_def)
qed

lemma boxplotStat_fields:
  assumes "hs \<noteq> []"
  obtains st where "boxplotStat sp hs = Some st"
    and "q1 st = sort hs ! (length hs div 4)"
    and "median st = sort hs ! (length hs div 2)"
    and "q3 st = sort hs ! (3 * length hs div 4)"
    and "lowerWhisker st = max (sort hs ! 0) (q1 st - 1.5 * (q3 st - q1 st))"
    and "upperWhisker st = min (sort hs ! (length hs - 1)) (q3 st + 1.5 * (q3 st - q1 st))"
    and "outliers st = filter (\<lambda>h. h < lowerWhisker st \<or> h > upperWhisker st) (sort hs)"
    and "count st = length hs" and "label st = sp"
proof -
  let ?s = "sort hs"
  let ?q1 = "?s ! (length hs div 4)" and ?q3 = "?s ! (3 * length hs div 4)"
  let ?lw = "max (?s ! 0) (?q1 - 1.5 * (?q3 - ?q1))"
  let ?uw = "min (?s ! (length hs - 1)) (?q3 + 1.5 * (?q3 - ?q1))"
  have "boxplotStat sp hs =
          Some \<lparr>q1 = ?q1, median = ?s ! (length hs div 2), q3 = ?q3,
                lowerWhisker = ?lw, upperWhisker = ?uw,
                outliers = filter (\<lambda>h. h < ?lw \<or> h > ?uw) ?s,
                count = length hs, label = sp\<rparr>"
    unfolding boxplotStat_def Let_def js_index_quartiles [OF assms] by simp
  then show thesis
    by (rule that) simp_all
qed

lemma fence_lower: "a \<le> c \<Longrightarrow> a - 1.5 * (c - a) \<le> (a::real)"
  by simp

lemma fence_upper: "a \<le> c \<Longrightarrow> c \<le> c + 1.5 * (c - (a::real))"
  by simp

lemma boxplotStat_chain:
  assumes "hs \<noteq> []" and st: "boxplotStat sp hs = Some st"
  shows "Min (set hs) \<le> lowerWhisker st" and "lowerWhisker st \<le> q1 st"
    and "q1 st \<le> median st" and "median st \<le> q3 st"
    and "q3 st \<le> upperWhisker st" and "upperWhisker st \<le> Max (set hs)"
proof -
  let ?s = "sort hs" and ?n = "length hs"
  from assms have n: "0 < ?n" by simp
  note bd = quartile_index_bounds [OF n]
  have a: "?s ! 0 \<le> ?s ! (?n div 4)"
    using bd(1) sort_nth_mono [of 0 "?n div 4" hs] by simp
  have b: "?s ! (?n div 4) \<le> ?s ! (?n div 2)"
    using bd(2) sort_nth_mono [of "?n div 4" "?n div 2" hs] by simp
  have "?n div 2 \<le> 3 * ?n div 4" by arith
  then have c: "?s ! (?n div 2) \<le> ?s ! (3 * ?n div 4)"
    using bd(3) sort_nth_mono [of "?n div 2" "3 * ?n div 4" hs] by simp
  have "3 * ?n div 4 \<le> ?n - 1" using n by arith
  then have d: "?s ! (3 * ?n div 4) \<le> ?s ! (?n - 1)"
    using bd(4) sort_nth_mono [of "3 * ?n div 4" "?n - 1" hs] by simp
  have lo: "Min (set hs) = ?s ! 0" using assms(1) by (rule sort_nth_0 [symmetric])
  have hi: "Max (set hs) = ?s ! (?n - 1)" using assms(1) by (rule sort_nth_last [symmetric])
  obtain st' where st': "boxplotStat sp hs = Some st'"
    and q1: "q1 st' = ?s ! (?n div 4)"
    and med: "median st' = ?s ! (?n div 2)"
    and q3: "q3 st' = ?s ! (3 * ?n div 4)"
    and lw: "lowerWhisker st' = max (?s ! 0) (q1 st' - 1.5 * (q3 st' - q1 st'))"
    and uw: "upperWhisker st' = min (?s ! (?n - 1)) (q3 st' + 1.5 * (q3 st' - q1 st'))"
    using boxplotStat_fields [OF assms(1), of sp] by blast
  from st st' have eq: "st' = st" by simp
  have q13: "q1 st' \<le> q3 st'" unfolding q1 q3 using b c by (rule order_trans)
  have lf: "q1 st' - 1.5 * (q3 st' - q1 st') \<le> q1 st'" using q13 by (rule fence_lower)
  have uf: "q3 st' \<le> q3 st' + 1.5 * (q3 st' - q1 st')" using q13 by (rule fence_upper)
  have a': "?s ! 0 \<le> q1 st'" unfolding q1 by (rule a)
  have d': "q3 st' \<le> ?s ! (?n - 1)" unfolding q3 by (rule d)
  have "Min (set hs) \<le> lowerWhisker st'"
    unfolding lo by (subst lw) (rule max.cobounded1)
  then show "Min (set hs) \<le> lowerWhisker st" unfolding eq .
  have "lowerWhisker st' \<le> q1 st'"
    by (subst lw) (rule max.boundedI [OF a' lf])
  then show "lowerWhisker st \<le> q1 st" unfolding eq .
  have "q1 st' \<le> median st'" unfolding q1 med by (rule b)
  then show "q1 st \<le> median st" unfolding eq .
  have "median st' \<le> q3 st'" unfolding q3 med by (rule c)
  then show "median st \<le> q3 st" unfolding eq .
  have "q3 st' \<le> upperWhisker st'"
    by (subst uw) (rule min.boundedI [OF d' uf])
  then show "q3 st \<le> upperWhisker st" unfolding eq .
  have "upperWhisker st' \<le> Max (set hs)"
    unfolding hi by (subst uw) (rule min.cobounded1)
  then show "upperWhisker st \<le> Max (set hs)" unfolding eq .
qed

subsection \<open>Groups built by \<^verbatim>\<open>createBoxplotData\<close>\<close>

lemma pushGroup_nonempty:
  "(\<And>k hs. (k, hs) \<in> set g \<Longrightarrow> hs \<noteq> []) \<Longrightarrow> (k, hs) \<in> set (pushGroup sp h g) \<Longrightarrow> hs \<noteq> []"
proof (induction sp h g rule: pushGroup.induct)
  case (1 sp h)
  then show ?case by simp
next
  case (2 sp h k' hs' rest)
  show ?case
  proof (cases "k' = sp")
    case True
    with 2(3) have "(k, hs) = (k', hs' @ [h]) \<or> (k, hs) \<in> set rest" by simp
    then show ?thesis using 2(2) by auto
  next
    case False
    with 2(3) have "(k, hs) = (k', hs') \<or> (k, hs) \<in> set (pushGroup sp h rest)" by simp
    then show ?thesis
    proof
      assume "(k, hs) = (k', hs')"
      then show ?thesis using 2(2) [of k' hs'] by simp
    next
      assume mem: "(k, hs) \<in> set (pushGroup sp h rest)"
      have "\<And>k hs. (k, hs) \<in> set rest \<Longrightarrow> hs \<noteq> []" using 2(2) by auto
      then show ?thesis using mem by (rule 2(1) [OF False])
    qed
  qed
qed

lemma fold_groupIssue_nonempty:
  "(\<And>k hs. (k, hs) \<in> set g \<Longrightarrow> hs \<noteq> []) \<Longrightarrow>
   (k, hs) \<in> set (fold groupIssue ps g) \<Longrightarrow> hs \<noteq> []"
proof (induction ps arbitrary: g)
  case Nil
  then show ?case by simp
next
  case (Cons p ps)
  have "\<And>k hs. (k, hs) \<in> set (groupIssue p g) \<Longrightarrow> hs \<noteq> []"
    unfolding groupIssue_def using Cons.prems(1) pushGroup_nonempty [of g]
    by (auto split: if_splits)
  then show ?case using Cons.IH [of "groupIssue p g"] Cons.prems(2) by simp
qed

lemma storyPointGroups_nonempty: "(k, hs) \<in> set (storyPointGroups ps) \<Longrightarrow> hs \<noteq> []"
  unfolding storyPointGroups_def using fold_groupIssue_nonempty [of "[]" k hs ps] by simp

lemma those_map_defined:
  "(\<And>x. x \<in> set xs \<Longrightarrow> f x \<noteq> None) \<Longrightarrow> those (map f xs) \<noteq> None"
  by (induction xs) (auto split: option.splits)

lemma those_map_elem:
  "those (map f xs) = Some ys \<Longrightarrow> y \<in> set ys \<Longrightarrow> \<exists>x \<in> set xs. f x = Some y"
proof (induction xs arbitrary: ys)
  case Nil
  then show ?case by simp
next
  case (Cons x xs)
  then show ?case by (auto split: option.splits)
qed

lemma group_stat_defined:
  assumes "sp \<in> set (sort (map fst (storyPointGroups ps)))"
  shows "\<exists>hs st. (sp, hs) \<in> set (storyPointGroups ps) \<and> hs \<noteq> []
           \<and> Option.bind (map_of (storyPointGroups ps) sp) (boxplotStat sp) = Some st
           \<and> boxplotStat sp hs = Some st"
proof -
  from assms have "sp \<in> fst ` set (storyPointGroups ps)" by simp
  then have "map_of (storyPointGroups ps) sp \<noteq> None"
    by (simp add: map_of_eq_None_iff)
  then obtain hs where m: "map_of (storyPointGroups ps) sp = Some hs" by blast
  then have mem: "(sp, hs) \<in> set (storyPointGroups ps)" by (rule map_of_SomeD)
  then have ne: "hs \<noteq> []" by (rule storyPointGroups_nonempty)
  then obtain st where "boxplotStat sp hs = Some st"
    using boxplotStat_fields [of hs sp] by blast
  with m mem ne show ?thesis by auto
qed

lemma createBoxplotData_defined: "createBoxplotData ps \<noteq> None"
proof -
  have "those (map (\<lambda>sp. Option.bind (map_of (storyPointGroups ps) sp) (boxplotStat sp))
          (sort (map fst (storyPointGroups ps)))) \<noteq> None"
  proof (rule those_map_defined)
    fix sp assume "sp \<in> set (sort (map fst (storyPointGroups ps)))"
    from group_stat_defined [OF this]
    show "Option.bind (map_of (storyPointGroups ps) sp) (boxplotStat sp) \<noteq> None" by auto
  qed
  then show ?thesis
    unfolding createBoxplotData_def Let_def by (auto split: option.splits)
qed

lemma createBoxplotData_stats:
  assumes "createBoxplotData ps = Some out" and "st \<in> set (boxplotStats out)"
  shows "\<exists>sp hs. (sp, hs) \<in> set (storyPointGroups ps) \<and> hs \<noteq> [] \<and> boxplotStat sp hs = Some st"
proof -
  let ?f = "\<lambda>sp. Option.bind (map_of (storyPointGroups ps) sp) (boxplotStat sp)"
  let ?ls = "sort (map fst (storyPointGroups ps))"
  from assms(1) obtain stats where th: "those (map ?f ?ls) = Some stats"
    and out: "boxplotStats out = stats"
    unfolding createBoxplotData_def Let_def by (auto split: option.splits)
  from assms(2) out have "st \<in> set stats" by simp
  from those_map_elem [OF th this] obtain sp where sp: "sp \<in> set ?ls" "?f sp = Some st"
    by blast
  from group_stat_defined [OF sp(1)] sp(2) show ?thesis by auto
qed

lemma createBoxplotData_segments:
  assumes "createBoxplotData ps = Some out" and "d \<in> set (datasets out)" and "v \<in> set d"
  shows "0 \<le> v"
proof -
  from assms(1) obtain stats where out: "boxplotStats out = stats"
    and ds: "datasets out = [map (\<lambda>stat. q1 stat - lowerWhisker stat) stats,
                             map (\<lambda>stat. median stat - q1 stat) stats,
                             map (\<lambda>stat. q3 stat - median stat) stats,
                             map (\<lambda>stat. upperWhisker stat - q3 stat) stats]"
    unfolding createBoxplotData_def Let_def by (auto split: option.splits)
  have chain: "lowerWhisker st \<le> q1 st \<and> q1 st \<le> median st \<and> median st \<le> q3 st
      \<and> q3 st \<le> upperWhisker st" if "st \<in> set stats" for st
  proof -
    from that out have "st \<in> set (boxplotStats out)" by simp
    from createBoxplotData_stats [OF assms(1) this]
    obtain sp hs where "hs \<noteq> []" "boxplotStat sp hs = Some st" by blast
    from boxplotStat_chain [OF this] show ?thesis by simp
  qed
  from assms(2) ds consider
      "d = map (\<lambda>stat. q1 stat - lowerWhisker stat) stats"
    | "d = map (\<lambda>stat. median stat - q1 stat) stats"
    | "d = map (\<lambda>stat. q3 stat - median stat) stats"
    | "d = map (\<lambda>stat. upperWhisker stat - q3 stat) stats"
    by auto
  then show ?thesis
  proof cases
    case 1
    with assms(3) obtain st where "st \<in> set stats" "v = q1 st - lowerWhisker st" by auto
    with chain [of st] show ?thesis by simp
  next
    case 2
    with assms(3) obtain st where "st \<in> set stats" "v = median st - q1 st" by auto
    with chain [of st] show ?thesis by simp
  next
    case 3
    with assms(3) obtain st where "st \<in> set stats" "v = q3 st - median st" by auto
    with chain [of st] show ?thesis by simp
  next
    case 4
    with assms(3) obtain st where "st \<in> set stats" "v = upperWhisker st - q3 st" by auto
    with chain [of st] show ?thesis by simp
  qed
qed

text \<open>The example of the specification: the group \<open>[2, 3, 4]\<close> of estimate 1.\<close>

lemma boxplotStat_example:
  "boxplotStat 1 [2, 3, 4] =
     Some \<lparr>q1 = 2, median = 3, q3 = 4, lowerWhisker = 2, upperWhisker = 4,
           outliers = [], count = 3, label = 1\<rparr>"
  by (simp add: boxplotStat_def js_index_def q1Index_div medianIndex_div q3Index_div)

subsection \<open>Claims about the boxplot\<close>

text \<open>
  C1.  For a non-empty group of \<open>n\<close> hours, the three quartiles are read from the sorted
  hours at the nearest-rank indices \<open>floor (n * 0.25) = n div 4\<close>,
  \<open>floor (n * 0.5) = n div 2\<close> and \<open>floor (n * 0.75) = 3 * n div 4\<close>, without
  interpolation.  For a group of one hour all three are this hour, the interquartile range
  is 0 and there is no outlier.
\<close>

theorem quartiles_nearest_rank:
  assumes "hs \<noteq> []"
  shows "\<exists>st. boxplotStat sp hs = Some st
    \<and> q1Index (length hs) = length hs div 4
    \<and> medianIndex (length hs) = length hs div 2
    \<and> q3Index (length hs) = 3 * length hs div 4
    \<and> q1 st = sort hs ! q1Index (length hs)
    \<and> median st = sort hs ! medianIndex (length hs)
    \<and> q3 st = sort hs ! q3Index (length hs)
    \<and> (length hs = 1 \<longrightarrow>
          q1 st = hd hs \<and> median st = hd hs \<and> q3 st = hd hs
        \<and> q3 st - q1 st = 0 \<and> outliers st = [])"
proof -
  obtain st where st: "boxplotStat sp hs = Some st"
    and q1: "q1 st = sort hs ! (length hs div 4)"
    and med: "median st = sort hs ! (length hs div 2)"
    and q3: "q3 st = sort hs ! (3 * length hs div 4)"
    and lw: "lowerWhisker st = max (sort hs ! 0) (q1 st - 1.5 * (q3 st - q1 st))"
    and uw: "upperWhisker st = min (sort hs ! (length hs - 1)) (q3 st + 1.5 * (q3 st - q1 st))"
    and out: "outliers st = filter (\<lambda>h. h < lowerWhisker st \<or> h > upperWhisker st) (sort hs)"
    using boxplotStat_fields [OF assms, of sp] by blast
  have single: "q1 st = hd hs \<and> median st = hd hs \<and> q3 st = hd hs
      \<and> q3 st - q1 st = 0 \<and> outliers st = []" if "length hs = 1"
  proof -
    from that obtain x where hs: "hs = [x]" by (cases hs) auto
    have q: "q1 st = x" "median st = x" "q3 st = x"
      using q1 med q3 unfolding hs by simp_all
    have w: "lowerWhisker st = x" "upperWhisker st = x"
      using lw uw unfolding q hs by simp_all
    have "outliers st = []" unfolding out w hs by simp
    with q show ?thesis unfolding hs by simp
  qed
  show ?thesis
    using st q1 med q3 single
    by (auto simp only: q1Index_div medianIndex_div q3Index_div)
qed

theorem quartiles_nearest_rank_witness:
  "[5::real] \<noteq> [] \<and> length [5::real] = 1
   \<and> (\<exists>st. boxplotStat 1 [5] = Some st \<and> q1 st = 5 \<and> median st = 5 \<and> q3 st = 5
         \<and> q3 st - q1 st = 0 \<and> outliers st = [])"
  using quartiles_nearest_rank [of "[5]" 1] by auto

text \<open>
  C5.  For a non-empty group the values are ordered
  \<open>min hours \<le> lowerWhisker \<le> q1 \<le> median \<le> q3 \<le> upperWhisker \<le> max hours\<close>, with
  \<open>lowerWhisker = max (hours[0]) (q1 - 1.5 * IQR)\<close> and
  \<open>upperWhisker = min (hours[n - 1]) (q3 + 1.5 * IQR)\<close> on the sorted hours: the whiskers
  stay inside the observed range, and the four stacked bar segments are non-negative.
\<close>

theorem boxplot_ordering_chain:
  assumes "hs \<noteq> []"
  shows "\<exists>st. boxplotStat sp hs = Some st
    \<and> Min (set hs) \<le> lowerWhisker st \<and> lowerWhisker st \<le> q1 st \<and> q1 st \<le> median st
    \<and> median st \<le> q3 st \<and> q3 st \<le> upperWhisker st \<and> upperWhisker st \<le> Max (set hs)
    \<and> sort hs ! 0 = Min (set hs) \<and> sort hs ! (length hs - 1) = Max (set hs)
    \<and> lowerWhisker st = max (sort hs ! 0) (q1 st - 1.5 * (q3 st - q1 st))
    \<and> upperWhisker st = min (sort hs ! (length hs - 1)) (q3 st + 1.5 * (q3 st - q1 st))
    \<and> 0 \<le> q1 st - lowerWhisker st \<and> 0 \<le> median st - q1 st
    \<and> 0 \<le> q3 st - median st \<and> 0 \<le> upperWhisker st - q3 st"
proof -
  obtain st where st: "boxplotStat sp hs = Some st"
    and lw: "lowerWhisker st = max (sort hs ! 0) (q1 st - 1.5 * (q3 st - q1 st))"
    and uw: "upperWhisker st = min (sort hs ! (length hs - 1)) (q3 st + 1.5 * (q3 st - q1 st))"
    using boxplotStat_fields [OF assms, of sp] by blast
  note ch = boxplotStat_chain [OF assms st]
  have seg: "0 \<le> q1 st - lowerWhisker st" "0 \<le> median st - q1 st"
    "0 \<le> q3 st - median st" "0 \<le> upperWhisker st - q3 st"
    using ch by simp_all
  show ?thesis
    using st ch seg lw uw sort_nth_0 [OF assms] sort_nth_last [OF assms] by blast
qed

theorem boxplot_ordering_chain_witness:
  "[1, 2, 3, 4, 100::real] \<noteq> []
   \<and> (\<exists>st. boxplotStat 2 [1, 2, 3, 4, 100] = Some st
         \<and> 1 \<le> lowerWhisker st \<and> lowerWhisker st \<le> q1 st \<and> q3 st \<le> upperWhisker st
         \<and> upperWhisker st \<le> 100)"
  using boxplot_ordering_chain [of "[1, 2, 3, 4, 100]" 2] by auto

text \<open>
  C10.  For a group of \<open>n \<ge> 1\<close> hours the three quartile indices are below \<open>n\<close>, so the
  reads \<open>hours[q1Index]\<close>, \<open>hours[medianIndex]\<close> and \<open>hours[q3Index]\<close> are in range and
  the statistics are defined.  Every group that \<^verbatim>\<open>createBoxplotData\<close> forms is non-empty,
  so it never reads out of range.
\<close>

theorem quartile_reads_in_range:
  assumes "1 \<le> length hs"
  shows "q1Index (length hs) < length hs \<and> medianIndex (length hs) < length hs
    \<and> q3Index (length hs) < length hs
    \<and> js_index (sort hs) (q1Index (length (sort hs))) = Some (sort hs ! q1Index (length hs))
    \<and> js_index (sort hs) (medianIndex (length (sort hs))) = Some (sort hs ! medianIndex (length hs))
    \<and> js_index (sort hs) (q3Index (length (sort hs))) = Some (sort hs ! q3Index (length hs))
    \<and> boxplotStat sp hs \<noteq> None
    \<and> createBoxplotData processedIssues \<noteq> None"
proof -
  from assms have n: "0 < length hs" and ne: "hs \<noteq> []" by auto
  note b = quartile_index_bounds [OF n]
  have "boxplotStat sp hs \<noteq> None" using boxplotStat_fields [OF ne, of sp] by auto
  then show ?thesis
    using b js_index_quartiles [OF ne] createBoxplotData_defined [of processedIssues]
    by (simp add: q1Index_div medianIndex_div q3Index_div)
qed

theorem quartile_reads_in_range_witness:
  "1 \<le> length [7, 3::real]
   \<and> q1Index (length [7, 3::real]) < length [7, 3::real]
   \<and> medianIndex (length [7, 3::real]) < length [7, 3::real]
   \<and> q3Index (length [7, 3::real]) < length [7, 3::real]
   \<and> boxplotStat 1 [7, 3] \<noteq> None \<and> createBoxplotData [] \<noteq> None"
  using quartile_reads_in_range [of "[7, 3]" 1 "[]"] by simp

subsection \<open>Histogram\<close>

lemma sum_list_bucketCounts:
  "(\<And>issue. issue \<in> set someIssues \<Longrightarrow> 0 \<le> timeSpentHours issue) \<Longrightarrow>
   sum_list (bucketCounts someIssues) = length someIssues"
proof (induction someIssues)
  case Nil
  show ?case by (simp add: bucketCounts_def buckets_def)
next
  case (Cons a someIssues)
  have "0 \<le> timeSpentHours a" using Cons.prems by simp
  moreover have "sum_list (bucketCounts someIssues) = length someIssues"
    using Cons by simp
  ultimately show ?case
    by (simp add: bucketCounts_def buckets_def inBucket_def)
qed

lemma fold_newSet_set:
  "set (fold (\<lambda>x acc. if x \<in> set acc then acc else acc @ [x]) xs acc) = set xs \<union> set acc"
  by (induction xs arbitrary: acc) auto

lemma fold_newSet_distinct:
  "distinct acc \<Longrightarrow> distinct (fold (\<lambda>x acc. if x \<in> set acc then acc else acc @ [x]) xs acc)"
  by (induction xs arbitrary: acc) auto

lemma set_newSet: "set (newSet xs) = set xs"
  by (simp add: newSet_def fold_newSet_set)

lemma distinct_newSet: "distinct (newSet xs)"
  by (simp add: newSet_def fold_newSet_distinct)

lemma sum_list_indicator:
  "distinct ks \<Longrightarrow> a \<in> set ks \<Longrightarrow> (\<Sum>k\<leftarrow>ks. if a = k then 1 else 0) = (1::nat)"
proof (induction ks)
  case Nil
  then show ?case by simp
next
  case (Cons k ks)
  show ?case
  proof (cases "a = k")
    case True
    with Cons.prems have "a \<notin> set ks" by simp
    then have "(\<Sum>k\<leftarrow>ks. if a = k then 1 else 0) = (0::nat)"
      by (induction ks) auto
    with True show ?thesis by simp
  next
    case False
    with Cons show ?thesis by simp
  qed
qed

lemma sum_list_partition:
  "distinct ks \<Longrightarrow> f ` set someIssues \<subseteq> set ks \<Longrightarrow>
   (\<Sum>k\<leftarrow>ks. length (filter (\<lambda>issue. f issue = k) someIssues)) = length someIssues"
proof (induction someIssues)
  case Nil
  then show ?case by simp
next
  case (Cons a someIssues)
  have "(\<Sum>k\<leftarrow>ks. length (filter (\<lambda>issue. f issue = k) (a # someIssues)))
      = (\<Sum>k\<leftarrow>ks. (if f a = k then 1 else 0) + length (filter (\<lambda>issue. f issue = k) someIssues))"
    by (intro arg_cong [where f = sum_list] map_cong) auto
  also have "\<dots> = (\<Sum>k\<leftarrow>ks. if f a = k then 1 else 0)
      + (\<Sum>k\<leftarrow>ks. length (filter (\<lambda>issue. f issue = k) someIssues))"
    by (simp add: sum_list_addf)
  also have "\<dots> = 1 + length someIssues"
    using Cons sum_list_indicator [of ks "f a"] by simp
  finally show ?case by simp
qed

lemma sum_list_filter_positive:
  "(\<Sum>d\<leftarrow>filter (\<lambda>dataset. \<exists>count \<in> set (dataset_data dataset). count > 0) ds.
      sum_list (dataset_data d))
   = (\<Sum>d\<leftarrow>ds. sum_list (dataset_data d))"
proof (induction ds)
  case Nil
  show ?case by simp
next
  case (Cons d ds)
  show ?case
  proof (cases "\<exists>count \<in> set (dataset_data d). count > 0")
    case True
    with Cons show ?thesis by simp
  next
    case False
    then have "sum_list (dataset_data d) = 0" by (simp add: sum_list_eq_0_iff)
    with False Cons show ?thesis by simp
  qed
qed

lemma length_filter_split:
  "length (filter P xs) = length (filter (\<lambda>x. P x \<and> Q x) xs) + length (filter (\<lambda>x. P x \<and> \<not> Q x) xs)"
  by (induction xs) auto

lemma histogram_total:
  "(\<Sum>d\<leftarrow>histogram_datasets (createHistogramData processedIssues). sum_list (dataset_data d))
   = length (filter (\<lambda>issue. timeSpentHours issue > 0 \<and> storyPoints issue \<ge> 0) processedIssues)"
proof -
  let ?both = "filter (\<lambda>issue. timeSpentHours issue > 0 \<and> storyPoints issue > 0) processedIssues"
  let ?none = "filter (\<lambda>issue. timeSpentHours issue > 0 \<and> storyPoints issue = 0) processedIssues"
  let ?us = "sort (newSet (map storyPoints ?both))"
  let ?ds = "map (\<lambda>storyPoint.
                   \<lparr>dataset_label = SP storyPoint,
                    dataset_data = bucketCounts
                      (filter (\<lambda>issue. storyPoints issue = storyPoint) ?both)\<rparr>) ?us"
  have pos: "0 \<le> timeSpentHours issue" if "issue \<in> set (filter P ?both)" for issue P
    using that by auto
  have "(\<Sum>d\<leftarrow>?ds. sum_list (dataset_data d))
      = (\<Sum>k\<leftarrow>?us. sum_list (bucketCounts (filter (\<lambda>issue. storyPoints issue = k) ?both)))"
    by (simp add: comp_def)
  also have "\<dots> = (\<Sum>k\<leftarrow>?us. length (filter (\<lambda>issue. storyPoints issue = k) ?both))"
    by (intro arg_cong [where f = sum_list] map_cong refl sum_list_bucketCounts pos)
  also have "\<dots> = length ?both"
    by (rule sum_list_partition) (simp_all add: distinct_newSet set_newSet)
  finally have both: "(\<Sum>d\<leftarrow>?ds. sum_list (dataset_data d)) = length ?both" .
  have none: "sum_list (bucketCounts ?none) = length ?none"
    by (rule sum_list_bucketCounts) auto
  have split: "length (filter (\<lambda>issue. timeSpentHours issue > 0 \<and> storyPoints issue \<ge> 0) processedIssues)
      = length ?both + length ?none"
  proof -
    have a: "(\<lambda>issue. (timeSpentHours issue > 0 \<and> storyPoints issue \<ge> 0) \<and> storyPoints issue > 0)
        = (\<lambda>issue. timeSpentHours issue > 0 \<and> storyPoints issue > 0)" by auto
    have b: "(\<lambda>issue. (timeSpentHours issue > 0 \<and> storyPoints issue \<ge> 0) \<and> \<not> storyPoints issue > 0)
        = (\<lambda>issue. timeSpentHours issue > 0 \<and> storyPoints issue = 0)" by auto
    show ?thesis
      using length_filter_split [of "\<lambda>issue. timeSpentHours issue > 0 \<and> storyPoints issue \<ge> 0"
          processedIssues "\<lambda>issue. storyPoints issue > 0"]
      unfolding a b .
  qed
  let ?pushed = "if length ?none > 0
      then ?ds @ [\<lparr>dataset_label = NoStoryPoints, dataset_data = bucketCounts ?none\<rparr>]
      else ?ds"
  have shape: "histogram_datasets (createHistogramData processedIssues)
      = filter (\<lambda>dataset. \<exists>count \<in> set (dataset_data dataset). count > 0) ?pushed"
    unfolding createHistogramData_def Let_def by simp
  have pushed: "(\<Sum>d\<leftarrow>?pushed. sum_list (dataset_data d)) = length ?both + length ?none"
  proof (cases "length ?none > 0")
    case True
    then have "?pushed = ?ds @ [\<lparr>dataset_label = NoStoryPoints, dataset_data = bucketCounts ?none\<rparr>]"
      by (simp only: if_True)
    then have "(\<Sum>d\<leftarrow>?pushed. sum_list (dataset_data d))
        = (\<Sum>d\<leftarrow>?ds. sum_list (dataset_data d)) + sum_list (bucketCounts ?none)"
      by simp
    then show ?thesis by (simp only: both none)
  next
    case False
    then have z: "length ?none = 0" by (simp only: not_gr_zero)
    from False have "?pushed = ?ds" by (simp only: if_False)
    then have "(\<Sum>d\<leftarrow>?pushed. sum_list (dataset_data d)) = (\<Sum>d\<leftarrow>?ds. sum_list (dataset_data d))"
      by (rule arg_cong)
    also have "\<dots> = length ?both" by (rule both)
    also have "\<dots> = length ?both + length ?none" by (simp only: z add_0_right)
    finally show ?thesis .
  qed
  have "(\<Sum>d\<leftarrow>histogram_datasets (createHistogramData processedIssues). sum_list (dataset_data d))
      = length ?both + length ?none"
    by (simp only: shape sum_list_filter_positive pushed)
  with split show ?thesis by simp
qed

lemma histogram_series_nonzero:
  "d \<in> set (histogram_datasets (createHistogramData processedIssues)) \<Longrightarrow>
   \<exists>count \<in> set (dataset_data d). count > 0"
  unfolding createHistogramData_def Let_def by (simp split: if_splits)

subsection \<open>Calendar arithmetic\<close>

lemma div_step:
  fixes a k :: int
  assumes k: "0 < k"
  shows "(a + 1) div k = a div k + (if (a + 1) mod k = 0 then 1 else 0)"
proof -
  define q where "q = a div k"
  define r where "r = a mod k"
  have a: "a = k * q + r" and r: "0 \<le> r" "r < k"
    unfolding q_def r_def using k by auto
  show ?thesis
  proof (cases "r + 1 < k")
    case True
    have e: "a + 1 = k * q + (r + 1)" using a by simp
    have r1: "0 \<le> r + 1" using r by simp
    have "(a + 1) div k = q" using e r1 True by (rule int_div_pos_eq)
    moreover have "(a + 1) mod k = r + 1" using e r1 True by (rule int_mod_pos_eq)
    ultimately show ?thesis using r unfolding q_def by simp
  next
    case False
    with r have rk: "r + 1 = k" by simp
    have e: "a + 1 = k * (q + 1) + 0" using a rk by (simp add: algebra_simps)
    have "(a + 1) div k = q + 1" using e _ k by (rule int_div_pos_eq) simp
    moreover have "(a + 1) mod k = 0" using e _ k by (rule int_mod_pos_eq) simp
    ultimately show ?thesis unfolding q_def by simp
  qed
qed


lemma DayFromYear_step:
  "DayFromYear (y + 1) = DayFromYear y + (if InLeapYear y then 366 else 365)"
proof -
  have m4: "(y - 1969 + 1) mod 4 = y mod 4"
    using mod_mult_self1 [of y "- 492" 4] by simp
  have m100: "(y - 1901 + 1) mod 100 = y mod 100"
    using mod_mult_self1 [of y "- 19" 100] by simp
  have m400: "(y - 1601 + 1) mod 400 = y mod 400"
    using mod_mult_self1 [of y "- 4" 400] by simp
  have d4: "(y + 1 - 1969) div 4 = (y - 1969) div 4 + (if y mod 4 = 0 then 1 else 0)"
    using div_step [of 4 "y - 1969"] m4 by (simp add: algebra_simps)
  have d100: "(y + 1 - 1901) div 100 = (y - 1901) div 100 + (if y mod 100 = 0 then 1 else 0)"
    using div_step [of 100 "y - 1901"] m100 by (simp add: algebra_simps)
  have d400: "(y + 1 - 1601) div 400 = (y - 1601) div 400 + (if y mod 400 = 0 then 1 else 0)"
    using div_step [of 400 "y - 1601"] m400 by (simp add: algebra_simps)
  have i1: "y mod 100 = 0 \<Longrightarrow> y mod 4 = 0"
  proof -
    assume "y mod 100 = 0"
    then have "100 dvd y" by (simp add: mod_eq_0_iff_dvd)
    moreover have "(4::int) dvd 100" by simp
    ultimately have "4 dvd y" by (rule dvd_trans [rotated])
    then show ?thesis by (simp add: mod_eq_0_iff_dvd)
  qed
  have i2: "y mod 400 = 0 \<Longrightarrow> y mod 100 = 0"
  proof -
    assume "y mod 400 = 0"
    then have "400 dvd y" by (simp add: mod_eq_0_iff_dvd)
    moreover have "(100::int) dvd 400" by simp
    ultimately have "100 dvd y" by (rule dvd_trans [rotated])
    then show ?thesis by (simp add: mod_eq_0_iff_dvd)
  qed
  define A where "A \<longleftrightarrow> y mod 4 = 0"
  define B where "B \<longleftrightarrow> y mod 100 = 0"
  define C where "C \<longleftrightarrow> y mod 400 = 0"
  have BA: "B \<Longrightarrow> A" unfolding A_def B_def by (rule i1)
  have CB: "C \<Longrightarrow> B" unfolding B_def C_def by (rule i2)
  have "DayFromYear (y + 1) = DayFromYear y + 365 + (if y mod 4 = 0 then 1 else 0)
      - (if y mod 100 = 0 then 1 else 0) + (if y mod 400 = 0 then 1 else 0)"
    unfolding DayFromYear_def d4 d100 d400 by (simp add: algebra_simps)
  then have step: "DayFromYear (y + 1) = DayFromYear y + 365 + (if A then 1 else 0)
      - (if B then 1 else 0) + (if C then 1 else 0)"
    unfolding A_def B_def C_def .
  have leap: "InLeapYear y \<longleftrightarrow> A \<and> (\<not> B \<or> C)"
    unfolding InLeapYear_def A_def B_def C_def ..
  show ?thesis
    unfolding step leap using BA CB by (cases A; cases B; cases C) simp_all
qed

lemma MakeDay_split:
  assumes "0 \<le> r" and "r < 12"
  shows "MakeDay y (12 * q + r) d
           = DayFromYear (y + q) + MonthStart r (InLeapYear (y + q)) + d - 1"
proof -
  from assms have "(12 * q + r) div 12 = q" and "(12 * q + r) mod 12 = r" by auto
  then show ?thesis by (simp add: MakeDay_def Let_def)
qed

lemma MonthStart_step:
  assumes "1 \<le> r" and "r < 12"
  shows "MonthStart (r - 1) l + 28 \<le> MonthStart r l" and "MonthStart r l \<le> MonthStart (r - 1) l + 31"
proof -
  from assms have "r = 1 \<or> r = 2 \<or> r = 3 \<or> r = 4 \<or> r = 5 \<or> r = 6 \<or> r = 7 \<or> r = 8
      \<or> r = 9 \<or> r = 10 \<or> r = 11" by arith
  then show "MonthStart (r - 1) l + 28 \<le> MonthStart r l"
    and "MonthStart r l \<le> MonthStart (r - 1) l + 31"
    by (auto simp: MonthStart_def)
qed

lemma MakeDay_month_step:
  "MakeDay y (m - 1) d + 28 \<le> MakeDay y m d \<and> MakeDay y m d \<le> MakeDay y (m - 1) d + 31"
proof -
  define q where "q = m div 12"
  define r where "r = m mod 12"
  have m: "m = 12 * q + r" and r: "0 \<le> r" "r < 12"
    unfolding q_def r_def by auto
  have cur: "MakeDay y m d = DayFromYear (y + q) + MonthStart r (InLeapYear (y + q)) + d - 1"
    unfolding m using r by (rule MakeDay_split)
  show ?thesis
  proof (cases "r = 0")
    case True
    have m1: "m - 1 = 12 * (q - 1) + 11" using m True by simp
    have prev: "MakeDay y (m - 1) d
        = DayFromYear (y + (q - 1)) + MonthStart 11 (InLeapYear (y + (q - 1))) + d - 1"
      unfolding m1 by (rule MakeDay_split) simp_all
    have "DayFromYear (y + q) = DayFromYear (y + (q - 1))
        + (if InLeapYear (y + (q - 1)) then 366 else 365)"
      using DayFromYear_step [of "y + (q - 1)"] by simp
    with prev cur True show ?thesis by (simp add: MonthStart_def)
  next
    case False
    with r have r1: "1 \<le> r" by simp
    have m1: "m - 1 = 12 * q + (r - 1)" using m by simp
    have prev: "MakeDay y (m - 1) d
        = DayFromYear (y + q) + MonthStart (r - 1) (InLeapYear (y + q)) + d - 1"
      unfolding m1 by (rule MakeDay_split) (use r r1 in simp_all)
    from MonthStart_step [OF r1 r(2), of "InLeapYear (y + q)"] prev cur
    show ?thesis by simp
  qed
qed

lemma MakeDay_day: "MakeDay y m (d - k) = MakeDay y m d - k"
  by (simp add: MakeDay_def Let_def)

subsection \<open>Cut-off times when both clock readings are the same instant\<close>

lemma cutoff_1d_le_1h: "setDate c (getDate c - 1) \<le> setHours c (getHours c - 1)"
  by (simp add: setDate_def setHours_def MakeDate_def MakeTime_def TimeWithinDay_def MakeDay_day
      algebra_simps)

lemma cutoff_1w_le_1d: "setDate c (getDate c - 7) \<le> setDate c (getDate c - 1)"
  by (simp add: setDate_def MakeDate_def MakeDay_day)

lemma cutoff_1m_le_1w: "setMonth c (getMonth c - 1) \<le> setDate c (getDate c - 7)"
proof -
  have "MakeDay (getFullYear c) (getMonth c - 1) (getDate c)
      \<le> MakeDay (getFullYear c) (getMonth c) (getDate c) - 7"
    using MakeDay_month_step [of "getFullYear c" "getMonth c" "getDate c"] by simp
  then show ?thesis
    by (simp add: setMonth_def setDate_def MakeDate_def MakeDay_day)
qed

lemma cutoff_3m_le_1m: "setMonth c (getMonth c - 3) \<le> setMonth c (getMonth c - 1)"
proof -
  have "MakeDay (getFullYear c) (getMonth c - 3) (getDate c)
      \<le> MakeDay (getFullYear c) (getMonth c - 1) (getDate c)"
    using MakeDay_month_step [of "getFullYear c" "getMonth c - 1" "getDate c"]
      MakeDay_month_step [of "getFullYear c" "getMonth c - 2" "getDate c"]
    by simp
  then show ?thesis
    by (simp add: setMonth_def MakeDate_def)
qed

lemma filter_updatedSince_mono:
  "c1 \<le> c2 \<Longrightarrow> length (filter (updatedSince c2) issues) \<le> length (filter (updatedSince c1) issues)"
proof (induction issues)
  case Nil
  show ?case by simp
next
  case (Cons a issues)
  have "updatedSince c2 a \<Longrightarrow> updatedSince c1 a"
    using Cons.prems by (auto simp: updatedSince_def split: option.splits)
  with Cons show ?case by auto
qed

lemma filterIssuesByTime_simps:
  "filterIssuesByTime now c issues ''1h'' = filter (updatedSince (setHours c (getHours now - 1))) issues"
  "filterIssuesByTime now c issues ''1d'' = filter (updatedSince (setDate c (getDate now - 1))) issues"
  "filterIssuesByTime now c issues ''1w'' = filter (updatedSince (setDate c (getDate now - 7))) issues"
  "filterIssuesByTime now c issues ''1m'' = filter (updatedSince (setMonth c (getMonth now - 1))) issues"
  "filterIssuesByTime now c issues ''3m'' = filter (updatedSince (setMonth c (getMonth now - 3))) issues"
  "filterIssuesByTime now c issues ''all'' = issues"
  by (simp_all add: filterIssuesByTime_def cutoffTime_def)

lemma window_chain:
  "length (filterIssuesByTime now now issues ''1h'') \<le> length (filterIssuesByTime now now issues ''1d'')"
  "length (filterIssuesByTime now now issues ''1d'') \<le> length (filterIssuesByTime now now issues ''1w'')"
  "length (filterIssuesByTime now now issues ''1w'') \<le> length (filterIssuesByTime now now issues ''1m'')"
  "length (filterIssuesByTime now now issues ''1m'') \<le> length (filterIssuesByTime now now issues ''3m'')"
  "length (filterIssuesByTime now now issues ''3m'') \<le> length (filterIssuesByTime now now issues ''all'')"
  unfolding filterIssuesByTime_simps
  by (rule filter_updatedSince_mono [OF cutoff_1d_le_1h] filter_updatedSince_mono [OF cutoff_1w_le_1d]
      filter_updatedSince_mono [OF cutoff_1m_le_1w] filter_updatedSince_mono [OF cutoff_3m_le_1m]
      length_filter_le)+

subsection \<open>Claims about the time window\<close>

text \<open>
  C9.  For a fixed list of issues and a fixed instant \<open>now\<close>, read by both clock readings,
  a wider window never returns fewer issues: along
  \<open>1h, 1d, 1w, 1m, 3m, all\<close> the number of issues returned by \<^verbatim>\<open>filterIssuesByTime\<close>
  is non-decreasing, for every pair of windows, adjacent or not.
\<close>

theorem window_monotonicity:
  assumes "i \<le> j" and "j < length timeFilters"
  shows "length (filterIssuesByTime now now issues (timeFilters ! i))
       \<le> length (filterIssuesByTime now now issues (timeFilters ! j))"
proof -
  define c where "c k = length (filterIssuesByTime now now issues (timeFilters ! (min k 5)))" for k
  have step: "c n \<le> c (Suc n)" for n
  proof -
    consider "n = 0" | "n = 1" | "n = 2" | "n = 3" | "n = 4" | "5 \<le> n" by arith
    then show ?thesis
    proof cases
      case 1
      then show ?thesis using window_chain(1) [of now issues] by (simp add: c_def timeFilters_def)
    next
      case 2
      then show ?thesis using window_chain(2) [of now issues] by (simp add: c_def timeFilters_def)
    next
      case 3
      then show ?thesis using window_chain(3) [of now issues] by (simp add: c_def timeFilters_def)
    next
      case 4
      then show ?thesis using window_chain(4) [of now issues] by (simp add: c_def timeFilters_def)
    next
      case 5
      then show ?thesis using window_chain(5) [of now issues] by (simp add: c_def timeFilters_def)
    next
      case 6
      then show ?thesis by (simp add: c_def)
    qed
  qed
  have "c i \<le> c j" using step assms(1) by (rule lift_Suc_mono_le)
  moreover from assms have "min i 5 = i" "min j 5 = j" by (simp_all add: timeFilters_def)
  ultimately show ?thesis by (simp add: c_def)
qed

theorem window_monotonicity_witness:
  "(3::nat) \<le> 4 \<and> 4 < length timeFilters
   \<and> timeFilters ! 3 = ''1m'' \<and> timeFilters ! 4 = ''3m''
   \<and> length (filterIssuesByTime (exampleClock 2024 2 31 10) (exampleClock 2024 2 31 10)
        [exampleIssue ''A-1'' (Some 1710460800000) (Some 3) (Some 7200),
         exampleIssue ''A-2'' (Some 1705276800000) (Some 5) (Some 3600)] (timeFilters ! 3))
     \<le> length (filterIssuesByTime (exampleClock 2024 2 31 10) (exampleClock 2024 2 31 10)
        [exampleIssue ''A-1'' (Some 1710460800000) (Some 3) (Some 7200),
         exampleIssue ''A-2'' (Some 1705276800000) (Some 5) (Some 3600)] (timeFilters ! 4))"
  using window_monotonicity [of 3 4 "exampleClock 2024 2 31 10"
      "[exampleIssue ''A-1'' (Some 1710460800000) (Some 3) (Some 7200),
        exampleIssue ''A-2'' (Some 1705276800000) (Some 5) (Some 3600)]"]
  by (simp add: timeFilters_def)

text \<open>
  On 31 March 2024, 10:00, the window \<open>1m\<close> starts on 2 March (there is no 31 February)
  and keeps the issue updated on 15 March; the window \<open>3m\<close> starts on 31 December 2023 and
  keeps the issue updated on 15 January as well.
\<close>

lemma window_example:
  "cutoffTime (exampleClock 2024 2 31 10) (exampleClock 2024 2 31 10) ''1m'' = Some 1709373600000"
  "cutoffTime (exampleClock 2024 2 31 10) (exampleClock 2024 2 31 10) ''3m'' = Some 1704016800000"
  "length (filterIssuesByTime (exampleClock 2024 2 31 10) (exampleClock 2024 2 31 10)
        [exampleIssue ''A-1'' (Some 1710460800000) (Some 3) (Some 7200),
         exampleIssue ''A-2'' (Some 1705276800000) (Some 5) (Some 3600)] ''1m'') = 1"
  "length (filterIssuesByTime (exampleClock 2024 2 31 10) (exampleClock 2024 2 31 10)
        [exampleIssue ''A-1'' (Some 1710460800000) (Some 3) (Some 7200),
         exampleIssue ''A-2'' (Some 1705276800000) (Some 5) (Some 3600)] ''3m'') = 2"
  by (simp_all add: filterIssuesByTime_def cutoffTime_def setMonth_def MakeDate_def MakeDay_def
      DayFromYear_def InLeapYear_def MonthStart_def TimeWithinDay_def MakeTime_def
      exampleClock_def exampleIssue_def updatedSince_def Let_def)






subsection \<open>Trend line\<close>

lemma foldl_add_sum_list:
  "foldl (\<lambda>sum point. sum + f point) a data = a + sum_list (map f data)" for a :: real
  by (induction data arbitrary: a) simp_all

lemma Math_min_Num: "xs \<noteq> [] \<Longrightarrow> Math_min xs = Num (Min (set xs))"
proof (induction xs)
  case Nil
  then show ?case by simp
next
  case (Cons a xs)
  show ?case
  proof (cases "xs = []")
    case True
    then show ?thesis by (simp add: Math_min_def)
  next
    case False
    with Cons have "Math_min xs = Num (Min (set xs))" by simp
    then have "Math_min (a # xs) = Num (min a (Min (set xs)))"
      by (simp add: Math_min_def)
    with False show ?thesis by simp
  qed
qed

lemma Math_max_Num: "xs \<noteq> [] \<Longrightarrow> Math_max xs = Num (Max (set xs))"
proof (induction xs)
  case Nil
  then show ?case by simp
next
  case (Cons a xs)
  show ?case
  proof (cases "xs = []")
    case True
    then show ?thesis by (simp add: Math_max_def)
  next
    case False
    with Cons have "Math_max xs = Num (Max (set xs))" by simp
    then have "Math_max (a # xs) = Num (max a (Max (set xs)))"
      by (simp add: Math_max_def)
    with False show ?thesis by simp
  qed
qed

text \<open>Fewer than two points: no trend line, slope and intercept 0.\<close>

lemma calculateTrendLine_short:
  "length data < 2 \<Longrightarrow>
   calculateTrendLine data = \<lparr>points = [], slope = Num 0, intercept = Num 0\<rparr>"
  by (simp add: calculateTrendLine_def)

text \<open>
  Two points or more: the result in terms of the sums, the least and the greatest \<open>x\<close>.
\<close>

lemma calculateTrendLine_long:
  assumes "2 \<le> length data"
  shows "calculateTrendLine data =
    (let n = real (length data);
         sumX = sum_list (map fst data);
         sumY = sum_list (map snd data);
         sumXY = sum_list (map (\<lambda>p. fst p * snd p) data);
         sumXX = sum_list (map (\<lambda>p. fst p * fst p) data);
         slopev = js_div (Num (n * sumXY - sumX * sumY)) (Num (n * sumXX - sumX * sumX));
         interceptv = js_div (js_sub (Num sumY) (js_mul slopev (Num sumX))) (Num n);
         minX = Min (set (map fst data));
         maxX = Max (set (map fst data));
         range = (if maxX - minX = 0 then 1 else maxX - minX);
         extMin = max 0 (minX - range * 0.1);
         extMax = maxX + range * 0.1
     in \<lparr>points =
           [(Num extMin, js_max (Num 0) (js_add (js_mul slopev (Num extMin)) interceptv)),
            (Num extMax, js_max (Num 0) (js_add (js_mul slopev (Num extMax)) interceptv))],
         slope = slopev, intercept = interceptv\<rparr>)"
proof -
  from assms have ne: "map fst data \<noteq> []" by auto
  have mn: "Math_min (map fst data) = Num (Min (set (map fst data)))"
    using ne by (rule Math_min_Num)
  have mx: "Math_max (map fst data) = Num (Max (set (map fst data)))"
    using ne by (rule Math_max_Num)
  have sums: "foldl (\<lambda>sum point. sum + fst point) 0 data = sum_list (map fst data)"
    "foldl (\<lambda>sum point. sum + snd point) 0 data = sum_list (map snd data)"
    "foldl (\<lambda>sum point. sum + fst point * snd point) 0 data
       = sum_list (map (\<lambda>p. fst p * snd p) data)"
    "foldl (\<lambda>sum point. sum + fst point * fst point) 0 data
       = sum_list (map (\<lambda>p. fst p * fst p) data)"
    by (simp_all add: foldl_add_sum_list)
  from assms have "\<not> length data < 2" by simp
  then show ?thesis
    unfolding calculateTrendLine_def Let_def sums mn mx
    by (simp add: js_sub_def)
qed

subsection \<open>Claims about the trend line\<close>

text \<open>
  C2.  The claim: with fewer than two distinct points, or with zero variance in \<open>x\<close>
  (\<open>n * sumXX - sumX * sumX = 0\<close>), the computation signals that there is no trend and
  never emits \<^verbatim>\<open>NaN\<close> or an infinity.  The code guards only \<^verbatim>\<open>data.length < 2\<close>.  For the
  two points \<open>(1, 2)\<close> and \<open>(1, 3)\<close> it divides 0 by 0: slope and intercept are \<^verbatim>\<open>NaN\<close>,
  and a trend line with two \<^verbatim>\<open>NaN\<close> heights is pushed to the chart.
\<close>

theorem trend_line_zero_variance_is_NaN:
  "calculateTrendLine [(1, 2), (1, 3)]
     = \<lparr>points = [(Num 0.9, NaN), (Num 1.1, NaN)], slope = NaN, intercept = NaN\<rparr>
   \<and> createScatterplotData
       [\<lparr>key = ''A-1'', summary = ''a'', storyPoints = 1, timeSpentHours = 2\<rparr>,
        \<lparr>key = ''A-2'', summary = ''b'', storyPoints = 1, timeSpentHours = 3\<rparr>]
     = \<lparr>scatterData = [(1, 2), (1, 3)],
        trendLineData = Some [(Num 0.9, NaN), (Num 1.1, NaN)],
        trend = (NaN, NaN)\<rparr>"
  by (simp add: createScatterplotData_def calculateTrendLine_def Math_min_def Math_max_def
      js_sub_def Let_def)

text \<open>
  With two points or more and zero variance in \<open>x\<close> the slope is never a finite number.
\<close>

lemma zero_variance_slope_not_finite:
  assumes "2 \<le> length data"
    and "real (length data) * sum_list (map (\<lambda>p. fst p * fst p) data)
           - sum_list (map fst data) * sum_list (map fst data) = 0"
  shows "slope (calculateTrendLine data) \<noteq> Num m"
  unfolding calculateTrendLine_long [OF assms(1)] Let_def using assms(2) by simp

text \<open>
  C8 (amended).  For two points or more the trend line has exactly two end points.  Their
  \<open>x\<close> are \<open>max 0 (minX - pad)\<close> and \<open>maxX + pad\<close>, where \<open>pad\<close> is a tenth of
  \<open>maxX - minX\<close>, or of 1 when \<open>maxX = minX\<close>.  Their \<open>y\<close> are the fitted line
  \<open>slope * x + intercept\<close> at these \<open>x\<close>, raised to 0 when negative.  When
  \<open>n * sumXX - sumX * sumX\<close> is not 0, slope and intercept are the least-squares values.
\<close>

theorem trend_line_endpoints:
  assumes "2 \<le> length data"
  shows
    "let n = real (length data);
         sumX = sum_list (map fst data);
         sumY = sum_list (map snd data);
         sumXY = sum_list (map (\<lambda>p. fst p * snd p) data);
         sumXX = sum_list (map (\<lambda>p. fst p * fst p) data);
         minX = Min (set (map fst data));
         maxX = Max (set (map fst data));
         range = (if maxX - minX = 0 then 1 else maxX - minX);
         extMin = max 0 (minX - 0.1 * range);
         extMax = maxX + 0.1 * range;
         t = calculateTrendLine data
     in map fst (points t) = [Num extMin, Num extMax]
      \<and> map snd (points t) =
            [js_max (Num 0) (js_add (js_mul (slope t) (Num extMin)) (intercept t)),
             js_max (Num 0) (js_add (js_mul (slope t) (Num extMax)) (intercept t))]
      \<and> (n * sumXX - sumX * sumX \<noteq> 0 \<longrightarrow>
            slope t = Num ((n * sumXY - sumX * sumY) / (n * sumXX - sumX * sumX))
          \<and> intercept t
              = Num ((sumY - (n * sumXY - sumX * sumY) / (n * sumXX - sumX * sumX) * sumX) / n))
      \<and> (\<forall>m b. slope t = Num m \<and> intercept t = Num b \<longrightarrow>
            map snd (points t) = [Num (max 0 (m * extMin + b)), Num (max 0 (m * extMax + b))])"
proof -
  from assms have n: "real (length data) \<noteq> 0" by auto
  show ?thesis
    unfolding calculateTrendLine_long [OF assms] Let_def using n
    by (simp add: js_sub_def mult.commute)
qed

theorem trend_line_endpoints_witness:
  "2 \<le> length [(1, 5), (2, 8), (3, 11::real)]
   \<and> 3 * 14 - 6 * 6 \<noteq> (0::real)
   \<and> calculateTrendLine [(1, 5), (2, 8), (3, 11)]
       = \<lparr>points = [(Num 0.8, Num 4.4), (Num 3.2, Num 11.6)], slope = Num 3, intercept = Num 2\<rparr>"
proof -
  have "points (calculateTrendLine [(1, 5), (2, 8), (3, 11)])
      = [(Num 0.8, Num 4.4), (Num 3.2, Num 11.6)]
    \<and> slope (calculateTrendLine [(1, 5), (2, 8), (3, 11)]) = Num 3
    \<and> intercept (calculateTrendLine [(1, 5), (2, 8), (3, 11)]) = Num 2"
    using trend_line_endpoints [of "[(1, 5), (2, 8), (3, 11)]"]
    by (simp add: Let_def list_eq_iff_nth_eq nth_Cons' prod_eq_iff)
  then show ?thesis
    by (cases "calculateTrendLine [(1, 5), (2, 8), (3, 11)]") simp
qed

text \<open>
  The claim as stated fails in two ways.  For the points \<open>(1, 1)\<close> and \<open>(11, 101)\<close> the
  fitted line is \<open>y = 10 x - 9\<close> and the left end is at \<open>x = 0\<close>: the line gives \<open>-9\<close>
  there, the code emits 0.  For the points \<open>(2, 1)\<close> and \<open>(2, 3)\<close> the observed range is
  0, and the left end is at \<open>1.9\<close>, not at \<open>max 0 (2 - 0.1 * 0) = 2\<close>.
\<close>

theorem trend_line_endpoints_counterexample:
  "calculateTrendLine [(1, 1), (11, 101)]
     = \<lparr>points = [(Num 0, Num 0), (Num 12, Num 111)], slope = Num 10, intercept = Num (- 9)\<rparr>
   \<and> Num 0 \<noteq> Num (10 * 0 + (- 9))
   \<and> map fst (points (calculateTrendLine [(2, 1), (2, 3)])) = [Num 1.9, Num 2.1]
   \<and> Num 1.9 \<noteq> Num (max 0 (2 - 0.1 * (2 - 2)))"
  by (simp add: calculateTrendLine_def Math_min_def Math_max_def js_sub_def Let_def)

subsection \<open>Claims about the histogram and the extraction\<close>

text \<open>The series of an example: one record each in the first, the second and the last bucket.\<close>

lemma histogram_example:
  "histogram_datasets (createHistogramData
       [\<lparr>key = ''A-1'', summary = ''a'', storyPoints = 1, timeSpentHours = 2\<rparr>,
        \<lparr>key = ''A-2'', summary = ''b'', storyPoints = 3, timeSpentHours = 9\<rparr>,
        \<lparr>key = ''A-3'', summary = ''c'', storyPoints = 0, timeSpentHours = 50\<rparr>])
     = [\<lparr>dataset_label = SP 1, dataset_data = [1, 0, 0, 0, 0]\<rparr>,
        \<lparr>dataset_label = SP 3, dataset_data = [0, 1, 0, 0, 0]\<rparr>,
        \<lparr>dataset_label = NoStoryPoints, dataset_data = [0, 0, 0, 0, 1]\<rparr>]"
  by (simp add: createHistogramData_def bucketCounts_def buckets_def inBucket_def newSet_def
      Let_def)

text \<open>
  The story-point chain passes on the first truthy value of whatever type: a string in a
  guessed field becomes the story points of the issue, and a negative number does too.
\<close>

lemma extractStoryPoints_passes_on:
  "extractStoryPoints
     ((exampleIssue ''A-1'' None None (Some 7200))\<lparr>customfield_10004 := JString ''n/a''\<rparr>)
     = JString ''n/a''"
  "extractStoryPoints (exampleIssue ''A-1'' None (Some (- 1)) (Some 7200)) = JNumber (- 1)"
  "extractStoryPoints
     ((exampleIssue ''A-1'' None None (Some 7200))
        \<lparr>otherFields := [(''customfield_10099'', JString ''x''), (''customfield_10100'', JNumber 8)]\<rparr>)
     = JNumber 8"
  by (simp_all add: extractStoryPoints_def js_or_def numericFields_def exampleIssue_def)

text \<open>
  C6.  The claim: the bucket counts of all emitted series add up to the number of processed
  records with logged hours above 0.  The code puts a record with logged hours into a
  story-point series when \<^verbatim>\<open>storyPoints > 0\<close> and into the catch-all series, labelled
  \<^verbatim>\<open>No Story Points\<close>, when \<^verbatim>\<open>storyPoints === 0\<close>; a record that is neither is in no series.
  The issue with \<open>-1\<close> in \<^verbatim>\<open>customfield_10016\<close> and 7200 seconds logged has the story points
  \<open>-1\<close> and two hours: no series is emitted and the counts add up to 0, while one processed
  record has logged hours above 0.
\<close>

theorem histogram_misses_record:
  "extractStoryPoints (exampleIssue ''A-1'' None (Some (- 1)) (Some 7200)) = JNumber (- 1)
   \<and> extractTimeSpentHours (exampleIssue ''A-1'' None (Some (- 1)) (Some 7200)) = 2
   \<and> histogram_datasets (createHistogramData
       [\<lparr>key = ''A-1'', summary = ''example'', storyPoints = - 1, timeSpentHours = 2\<rparr>]) = []
   \<and> (\<Sum>d\<leftarrow>histogram_datasets (createHistogramData
          [\<lparr>key = ''A-1'', summary = ''example'', storyPoints = - 1, timeSpentHours = 2\<rparr>]).
        sum_list (dataset_data d)) = 0
   \<and> length (filter (\<lambda>issue. timeSpentHours issue > 0)
       [\<lparr>key = ''A-1'', summary = ''example'', storyPoints = - 1, timeSpentHours = 2\<rparr>]) = 1"
  by (simp add: exampleIssue_def extractStoryPoints_def extractTimeSpentHours_def js_or_def
      truthyValue_def numericFields_def timetrackingSeconds_def createHistogramData_def
      bucketCounts_def buckets_def inBucket_def newSet_def Let_def)

text \<open>
  On processed issues whose story points are numbers, the counts add up to the number of
  records with logged hours above 0 and story points of at least 0, and every emitted
  series has a bucket that is not 0: lemmas \<open>histogram_total\<close> and
  \<open>histogram_series_nonzero\<close>.
\<close>

lemma foldl_plus_sum_list: "foldl (+) a xs = a + sum_list xs" for a :: real
  by (induction xs arbitrary: a) simp_all

lemma sum_list_nonneg_all: "list_all (\<lambda>s. 0 \<le> s) xs \<Longrightarrow> 0 \<le> sum_list xs" for xs :: "real list"
  by (induction xs) simp_all

text \<open>
  For every issue, the first of the three sources whose seconds are not 0 gives the hours.
\<close>

lemma extractTimeSpentHours_first_nonzero:
  "extractTimeSpentHours issue =
     (case find (\<lambda>seconds. seconds \<noteq> 0)
             [secondsOrZero (timespent issue),
              secondsOrZero (timetrackingSeconds issue),
              worklogSeconds issue] of
        None \<Rightarrow> 0
      | Some seconds \<Rightarrow> seconds / 3600)"
  by (auto simp: extractTimeSpentHours_def truthyValue_def secondsOrZero_def worklogSeconds_def
      foldl_plus_sum_list split: option.splits)

text \<open>
  C7 (amended).  For an issue without a negative duration, the effort extraction tries the
  direct \<^verbatim>\<open>timespent\<close> field, then \<^verbatim>\<open>timetracking.timeSpentSeconds\<close>, then the sum of the
  worklog entries; the first source with a positive value wins, alone, and its seconds are
  divided by 3600.
\<close>

theorem effort_extraction_order:
  assumes "nonNegativeDurations issue"
  shows "extractTimeSpentHours issue = specTimeSpentHours issue"
proof -
  from assms have a: "0 \<le> secondsOrZero (timespent issue)"
    and b: "0 \<le> secondsOrZero (timetrackingSeconds issue)"
    and c: "case worklog issue of None \<Rightarrow> True | Some worklogs \<Rightarrow> list_all (\<lambda>s. 0 \<le> s) worklogs"
    by (simp_all add: nonNegativeDurations_def)
  have w: "0 \<le> worklogSeconds issue"
    using c by (auto simp: worklogSeconds_def sum_list_nonneg_all split: option.splits)
  have wl: "(case worklog issue of None \<Rightarrow> 0
      | Some worklogs \<Rightarrow> if length worklogs > 0 then foldl (+) 0 worklogs / 3600 else 0)
      = worklogSeconds issue / 3600"
    by (auto simp: worklogSeconds_def foldl_plus_sum_list split: option.splits)
  have t1: "truthyValue (timespent issue)
      = (if secondsOrZero (timespent issue) > 0 then Some (secondsOrZero (timespent issue)) else None)"
    using a by (auto simp: truthyValue_def secondsOrZero_def split: option.splits)
  have t2: "truthyValue (timetrackingSeconds issue)
      = (if secondsOrZero (timetrackingSeconds issue) > 0
         then Some (secondsOrZero (timetrackingSeconds issue)) else None)"
    using b by (auto simp: truthyValue_def secondsOrZero_def split: option.splits)
  show ?thesis
    unfolding extractTimeSpentHours_def specTimeSpentHours_def wl t1 t2
    using w by auto
qed

theorem effort_extraction_order_witness:
  "nonNegativeDurations
     ((exampleIssue ''A-1'' None None (Some 0))
        \<lparr>timetracking := Some \<lparr>timeSpentSeconds = Some 5400\<rparr>, worklog := Some [3600, 1800]\<rparr>)
   \<and> extractTimeSpentHours
     ((exampleIssue ''A-1'' None None (Some 0))
        \<lparr>timetracking := Some \<lparr>timeSpentSeconds = Some 5400\<rparr>, worklog := Some [3600, 1800]\<rparr>)
     = 1.5
   \<and> specTimeSpentHours
     ((exampleIssue ''A-1'' None None (Some 0))
        \<lparr>timetracking := Some \<lparr>timeSpentSeconds = Some 5400\<rparr>, worklog := Some [3600, 1800]\<rparr>)
     = 1.5"
  using effort_extraction_order
    [of "(exampleIssue ''A-1'' None None (Some 0))
        \<lparr>timetracking := Some \<lparr>timeSpentSeconds = Some 5400\<rparr>, worklog := Some [3600, 1800]\<rparr>"]
  by (simp add: nonNegativeDurations_def specTimeSpentHours_def secondsOrZero_def
      timetrackingSeconds_def worklogSeconds_def exampleIssue_def)

text \<open>
  The claim as stated fails: the code takes a source when its value is truthy, not when it
  is positive.  With \<^verbatim>\<open>timespent = -3600\<close> and \<^verbatim>\<open>timetracking.timeSpentSeconds = 7200\<close>
  the first source yielding a positive value is the second one, two hours; the code takes
  the first one and returns \<open>-1\<close>.
\<close>

theorem effort_extraction_order_counterexample:
  "extractTimeSpentHours
     ((exampleIssue ''A-1'' None None (Some (- 3600)))
        \<lparr>timetracking := Some \<lparr>timeSpentSeconds = Some 7200\<rparr>\<rparr>) = - 1
   \<and> specTimeSpentHours
     ((exampleIssue ''A-1'' None None (Some (- 3600)))
        \<lparr>timetracking := Some \<lparr>timeSpentSeconds = Some 7200\<rparr>\<rparr>) = 2"
  by (simp add: extractTimeSpentHours_def specTimeSpentHours_def truthyValue_def
      secondsOrZero_def timetrackingSeconds_def worklogSeconds_def exampleIssue_def)

subsection \<open>Claim about the performance-deviation score\<close>

text \<open>
  C4.  The score of a group is
  \<open>\<bar>groupMean - estimateValue * perPoint\<bar> / (estimateValue * perPoint)\<close> with \<open>perPoint\<close>
  the global ratio of all hours to all estimate points.  It is classified as on target
  below 0.15, as a moderate deviation from 0.15 to below 0.30 and as a high deviation from
  0.30 on.  When the expected hours are zero, or there is no estimate point at all, the
  classification is undefined; the function is total, so nothing fails.
\<close>

theorem deviation_classification:
  "(totalEstimatePointsAcrossAllGroups groups = 0 \<longrightarrow>
      groupClassification groups estimateValue hours = UndefinedDeviation)
   \<and> (totalEstimatePointsAcrossAllGroups groups \<noteq> 0 \<longrightarrow>
      (let perPoint = totalHoursAcrossAllGroups groups / totalEstimatePointsAcrossAllGroups groups;
           expected = estimateValue * perPoint;
           p = \<bar>groupMean hours - expected\<bar> / expected
       in expectedHoursPerPoint groups = Some perPoint
        \<and> (expected = 0 \<longrightarrow>
              percentDiff groups estimateValue hours = None
            \<and> groupClassification groups estimateValue hours = UndefinedDeviation)
        \<and> (expected \<noteq> 0 \<longrightarrow>
              percentDiff groups estimateValue hours = Some p
            \<and> (groupClassification groups estimateValue hours = OnTarget \<longleftrightarrow> p < 0.15)
            \<and> (groupClassification groups estimateValue hours = ModerateDeviation
                 \<longleftrightarrow> 0.15 \<le> p \<and> p < 0.30)
            \<and> (groupClassification groups estimateValue hours = HighDeviation \<longleftrightarrow> 0.30 \<le> p)
            \<and> groupClassification groups estimateValue hours \<noteq> UndefinedDeviation)))"
proof (cases "totalEstimatePointsAcrossAllGroups groups = 0")
  case True
  then show ?thesis
    by (simp add: groupClassification_def classify_def percentDiff_def expectedHoursPerPoint_def)
next
  case False
  define perPoint where
    "perPoint = totalHoursAcrossAllGroups groups / totalEstimatePointsAcrossAllGroups groups"
  define expected where "expected = estimateValue * perPoint"
  define p where "p = \<bar>groupMean hours - expected\<bar> / expected"
  have per: "expectedHoursPerPoint groups = Some perPoint"
    using False by (simp add: expectedHoursPerPoint_def perPoint_def)
  have zero: "percentDiff groups estimateValue hours = None
      \<and> groupClassification groups estimateValue hours = UndefinedDeviation"
    if "expected = 0"
    using that unfolding groupClassification_def percentDiff_def per expected_def
    by (simp add: classify_def)
  have pd: "percentDiff groups estimateValue hours = Some p" if "expected \<noteq> 0"
    using that unfolding percentDiff_def per expected_def p_def by simp
  have cl: "(groupClassification groups estimateValue hours = OnTarget \<longleftrightarrow> p < 0.15)
      \<and> (groupClassification groups estimateValue hours = ModerateDeviation
           \<longleftrightarrow> 0.15 \<le> p \<and> p < 0.30)
      \<and> (groupClassification groups estimateValue hours = HighDeviation \<longleftrightarrow> 0.30 \<le> p)
      \<and> groupClassification groups estimateValue hours \<noteq> UndefinedDeviation"
    if "expected \<noteq> 0"
    unfolding groupClassification_def pd [OF that] classify_def by auto
  have "expectedHoursPerPoint groups = Some perPoint
      \<and> (expected = 0 \<longrightarrow>
            percentDiff groups estimateValue hours = None
          \<and> groupClassification groups estimateValue hours = UndefinedDeviation)
      \<and> (expected \<noteq> 0 \<longrightarrow>
            percentDiff groups estimateValue hours = Some p
          \<and> (groupClassification groups estimateValue hours = OnTarget \<longleftrightarrow> p < 0.15)
          \<and> (groupClassification groups estimateValue hours = ModerateDeviation
               \<longleftrightarrow> 0.15 \<le> p \<and> p < 0.30)
          \<and> (groupClassification groups estimateValue hours = HighDeviation \<longleftrightarrow> 0.30 \<le> p)
          \<and> groupClassification groups estimateValue hours \<noteq> UndefinedDeviation)"
    using per zero pd cl by blast
  then show ?thesis
    using False unfolding Let_def perPoint_def expected_def p_def by blast
qed

theorem deviation_classification_witness:
  "totalEstimatePointsAcrossAllGroups [(1, [2, 4]), (2, [10])] \<noteq> 0
   \<and> totalEstimatePointsAcrossAllGroups [] = 0
   \<and> expectedHoursPerPoint [(1, [2, 4]), (2, [10])] = Some 4
   \<and> 1 * (4::real) \<noteq> 0
   \<and> percentDiff [(1, [2, 4]), (2, [10])] 1 [2, 4] = Some 0.25
   \<and> groupClassification [(1, [2, 4]), (2, [10])] 1 [2, 4] = ModerateDeviation
   \<and> groupClassification [] 1 [2, 4] = UndefinedDeviation"
  using deviation_classification [of "[(1, [2, 4]), (2, [10])]" 1 "[2, 4]"]
    deviation_classification [of "[]" 1 "[2, 4]"]
  by (simp add: totalEstimatePointsAcrossAllGroups_def totalHoursAcrossAllGroups_def
      groupMean_def Let_def)

end
